theory Spec2Isabelle
  imports Main "HOL-Library.Word"
begin

unbundle bit_operations_syntax

section \<open>The CyberGear motor driver of \<open>windows_cybergearmotortest.py\<close>\<close>

text \<open>
  The class \<open>CyberGearMotor\<close> builds CAN frames for a servo motor and hands them to a
  python-can bus with a bounded number of attempts. The model keeps Python's unbounded
  integers as \<open>int\<close>, the payload bytes as 8-bit words, a Python \<open>float\<close> as the IEEE-754
  binary64 bit pattern it is stored in, exceptions as values of a sum type, and the
  mutable object as a record that every method takes and returns. Console output
  (\<open>print\<close>) changes nothing that the program reads again and is left out, and so are
  \<open>close\<close>, which only shuts the bus down, and the script \<open>main\<close>, which calls the methods
  below one after the other.
\<close>

subsection \<open>Data\<close>

type_synonym byte = "8 word"

text \<open>A Python \<open>float\<close> is a C double: its 64 bits, sign, 11 exponent bits, 52 fraction bits.\<close>

type_synonym py_float = "64 word"

text \<open>
  The handlers of the source are \<open>except Exception\<close>: they catch the instances of
  \<open>Exception\<close> (python-can's \<open>CanError\<close>, \<open>OverflowError\<close>, ...) and let the other
  instances of \<open>BaseException\<close> (\<open>KeyboardInterrupt\<close>, \<open>SystemExit\<close>) pass.
\<close>

datatype py_exception = ExceptionInstance string | BaseExceptionOnly string

fun is_Exception :: "py_exception \<Rightarrow> bool" where
  "is_Exception (ExceptionInstance _) = True"
| "is_Exception (BaseExceptionOnly _) = False"

text \<open>What a public method hands back to its caller: \<open>None\<close> or a boolean.\<close>

datatype py_value = PyNone | PyBool bool

text \<open>\<open>can.Message(arbitration_id=..., data=..., is_extended_id=True)\<close>.\<close>

record can_message =
  arbitration_id :: int
  data :: "byte list"
  is_extended_id :: bool

text \<open>
  The bus is the external collaborator. Its model is a test double: \<open>behaviour b k m\<close> is
  what the call number \<open>k\<close> (from 0) of \<open>bus.send\<close> does when handed the frame \<open>m\<close>,
  \<open>None\<close> for a frame accepted and \<open>Some e\<close> for the exception raised; \<open>attempts\<close> lists
  the frames handed to \<open>bus.send\<close>, in call order, accepted or not.
\<close>

record bus_state =
  behaviour :: "nat \<Rightarrow> can_message \<Rightarrow> py_exception option"
  attempts :: "can_message list"

definition bus_send :: "bus_state \<Rightarrow> can_message \<Rightarrow> py_exception option \<times> bus_state" where
  "bus_send b msg = (behaviour b (length (attempts b)) msg, b\<lparr>attempts := attempts b @ [msg]\<rparr>)"

text \<open>
  The object: \<open>self.bus\<close>, \<open>self.master_id\<close>, \<open>self.last_positions\<close> (a dict from motor id to
  the last commanded position), and the time spent in \<open>time.sleep\<close>, in milliseconds.
\<close>

record motor =
  bus :: bus_state
  master_id :: int
  last_positions :: "int \<rightharpoonup> py_float"
  slept_ms :: nat

text \<open>\<open>__init__\<close>, once \<open>can.interface.Bus\<close> has returned the bus.\<close>

definition init :: "bus_state \<Rightarrow> motor" where
  "init b = \<lparr>bus = b, master_id = 0x00FD, last_positions = Map.empty, slept_ms = 0\<rparr>"

definition sleep_ms :: "nat \<Rightarrow> motor \<Rightarrow> motor" where
  "sleep_ms d st = st\<lparr>slept_ms := slept_ms st + d\<rparr>"

subsection \<open>\<open>send_can_frame\<close>\<close>

text \<open>Lines 27 to 33: the arbitration id and the message.\<close>

definition can_id :: "int \<Rightarrow> int \<Rightarrow> int \<Rightarrow> int" where
  "can_id master cmd_id motor_id = push_bit 24 cmd_id OR push_bit 8 master OR motor_id"

definition make_msg :: "motor \<Rightarrow> int \<Rightarrow> int \<Rightarrow> byte list \<Rightarrow> can_message" where
  "make_msg st cmd_id motor_id dat =
     \<lparr>arbitration_id = can_id (master_id st) cmd_id motor_id, data = dat, is_extended_id = True\<rparr>"

text \<open>
  Lines 35 to 45: \<open>for attempt in range(retry)\<close>, from the value \<open>attempt\<close> on. A frame
  accepted ends the loop with \<open>True\<close> after 15 ms; an \<open>Exception\<close> on the last attempt ends
  it with \<open>False\<close>, on an earlier one the loop sleeps 50 ms and goes on; any other
  exception leaves the method. A range that is empty falls through to \<open>return False\<close>.
\<close>

function send_loop :: "motor \<Rightarrow> can_message \<Rightarrow> int \<Rightarrow> int \<Rightarrow> (py_exception + bool) \<times> motor" where
  "send_loop st msg retry attempt =
     (if attempt < retry then
        (case bus_send (bus st) msg of
           (None, b') \<Rightarrow> (Inr True, sleep_ms 15 (st\<lparr>bus := b'\<rparr>))
         | (Some e, b') \<Rightarrow>
             if is_Exception e then
               (if attempt = retry - 1 then (Inr False, st\<lparr>bus := b'\<rparr>)
                else send_loop (sleep_ms 50 (st\<lparr>bus := b'\<rparr>)) msg retry (attempt + 1))
             else (Inl e, st\<lparr>bus := b'\<rparr>))
      else (Inr False, st))"
  by pat_completeness auto
termination
  by (relation "measure (\<lambda>(st, msg, retry, attempt). nat (retry - attempt))") auto

declare send_loop.simps [simp del]

definition send_can_frame ::
  "motor \<Rightarrow> int \<Rightarrow> int \<Rightarrow> byte list \<Rightarrow> int \<Rightarrow> (py_exception + bool) \<times> motor" where
  "send_can_frame st cmd_id motor_id dat retry = send_loop st (make_msg st cmd_id motor_id dat) retry 0"

text \<open>The default of the parameter \<open>retry\<close>.\<close>

definition default_retry :: int where
  "default_retry = 3"

subsection \<open>Floats: \<open>struct.pack('<f', x)\<close> and \<open>math.radians\<close>\<close>

text \<open>
  Both are library functions, modelled on the bits. A finite binary64 or binary32 value is
  \<open>significand * 2 ^ exponent\<close> with a natural significand; \<open>ieee_round p qmin sig e\<close>
  rounds the exact value \<open>sig * 2 ^ e\<close> to \<open>p\<close> significant bits with units no finer
  than \<open>2 ^ qmin\<close>, to nearest and ties to even, and gives the exponent and fraction fields
  of the result as one number (a rounding that carries moves into the next exponent by
  itself). A result at or above the pattern of infinity is infinity.
\<close>

fun bit_length :: "nat \<Rightarrow> nat" where
  "bit_length n = (if n = 0 then 0 else Suc (bit_length (n div 2)))"

declare bit_length.simps [simp del]

definition round_half_even :: "nat \<Rightarrow> nat \<Rightarrow> nat" where
  "round_half_even n sh =
     (let k = n div 2 ^ sh; r = n mod 2 ^ sh
      in if 2 ^ sh < 2 * r \<or> (2 * r = 2 ^ sh \<and> odd k) then k + 1 else k)"

definition ieee_round :: "nat \<Rightarrow> int \<Rightarrow> nat \<Rightarrow> int \<Rightarrow> nat" where
  "ieee_round p qmin sig e =
     (if sig = 0 then 0
      else let q = max (e + int (bit_length sig) - int p) qmin;
               k = (if q \<le> e then sig * 2 ^ nat (e - q) else round_half_even sig (nat (q - e)))
           in nat (q - qmin) * 2 ^ (p - 1) + k)"

text \<open>The fields of a double.\<close>

definition f64_sign :: "py_float \<Rightarrow> nat" where
  "f64_sign x = unat x div 2 ^ 63"

definition f64_exponent :: "py_float \<Rightarrow> nat" where
  "f64_exponent x = unat x div 2 ^ 52 mod 2 ^ 11"

definition f64_fraction :: "py_float \<Rightarrow> nat" where
  "f64_fraction x = unat x mod 2 ^ 52"

definition f64_is_nan :: "py_float \<Rightarrow> bool" where
  "f64_is_nan x \<longleftrightarrow> f64_exponent x = 2047 \<and> f64_fraction x \<noteq> 0"

definition f64_is_inf :: "py_float \<Rightarrow> bool" where
  "f64_is_inf x \<longleftrightarrow> f64_exponent x = 2047 \<and> f64_fraction x = 0"

definition f64_is_zero :: "py_float \<Rightarrow> bool" where
  "f64_is_zero x \<longleftrightarrow> f64_exponent x = 0 \<and> f64_fraction x = 0"

text \<open>The magnitude of a finite double is \<open>f64_sig x * 2 ^ f64_exp2 x\<close>.\<close>

definition f64_sig :: "py_float \<Rightarrow> nat" where
  "f64_sig x = (if f64_exponent x = 0 then f64_fraction x else 2 ^ 52 + f64_fraction x)"

definition f64_exp2 :: "py_float \<Rightarrow> int" where
  "f64_exp2 x = int (max 1 (f64_exponent x)) - 1075"

text \<open>The fields of a single.\<close>

type_synonym f32 = "32 word"

definition f32_sign :: "f32 \<Rightarrow> nat" where
  "f32_sign y = unat y div 2 ^ 31"

definition f32_exponent :: "f32 \<Rightarrow> nat" where
  "f32_exponent y = unat y div 2 ^ 23 mod 2 ^ 8"

definition f32_fraction :: "f32 \<Rightarrow> nat" where
  "f32_fraction y = unat y mod 2 ^ 23"

definition f32_is_nan :: "f32 \<Rightarrow> bool" where
  "f32_is_nan y \<longleftrightarrow> f32_exponent y = 255 \<and> f32_fraction y \<noteq> 0"

definition f32_is_inf :: "f32 \<Rightarrow> bool" where
  "f32_is_inf y \<longleftrightarrow> f32_exponent y = 255 \<and> f32_fraction y = 0"

definition f32_sig :: "f32 \<Rightarrow> nat" where
  "f32_sig y = (if f32_exponent y = 0 then f32_fraction y else 2 ^ 23 + f32_fraction y)"

definition f32_exp2 :: "f32 \<Rightarrow> int" where
  "f32_exp2 y = int (max 1 (f32_exponent y)) - 150"

text \<open>
  The C conversion \<open>(float)x\<close> that \<open>struct.pack\<close> applies: infinities stay, a NaN stays a
  (quiet) NaN with the upper bits of its payload, a finite value is rounded to 24
  significant bits and becomes infinite from \<open>2 ^ 128 - 2 ^ 103\<close> on.
\<close>

definition double_to_single :: "py_float \<Rightarrow> f32" where
  "double_to_single x =
     (let s = f64_sign x * 2 ^ 31
      in if f64_exponent x = 2047 then
           (if f64_fraction x = 0 then of_nat (s + 0x7F800000)
            else of_nat (s + 0x7FC00000 + f64_fraction x div 2 ^ 29 mod 2 ^ 22))
         else of_nat (s + min (ieee_round 24 (- 149) (f64_sig x) (f64_exp2 x)) 0x7F800000))"

definition le_bytes :: "f32 \<Rightarrow> byte list" where
  "le_bytes y = [ucast y, ucast (drop_bit 8 y), ucast (drop_bit 16 y), ucast (drop_bit 24 y)]"

text \<open>
  \<open>list(struct.pack('<f', x))\<close>: the four bytes of \<open>(float)x\<close>, lowest first, and
  \<open>OverflowError\<close> when a finite \<open>x\<close> converts to an infinity.
\<close>

definition pack_f :: "py_float \<Rightarrow> py_exception + byte list" where
  "pack_f x =
     (let y = double_to_single x
      in if f32_is_inf y \<and> \<not> f64_is_inf x
         then Inl (ExceptionInstance ''OverflowError: float too large to pack with f format'')
         else Inr (le_bytes y))"

text \<open>
  The product of two doubles, rounded to 53 significant bits. A NaN operand and
  infinity times zero give the quiet NaN \<open>0x7FF8000000000000\<close> (which NaN the hardware
  gives is not modelled).
\<close>

definition f64_mul :: "py_float \<Rightarrow> py_float \<Rightarrow> py_float" where
  "f64_mul x y =
     (let s = (f64_sign x + f64_sign y) mod 2 * 2 ^ 63
      in if f64_is_nan x \<or> f64_is_nan y then 0x7FF8000000000000
         else if f64_is_inf x \<or> f64_is_inf y then
           (if f64_is_zero x \<or> f64_is_zero y then 0x7FF8000000000000
            else of_nat (s + 0x7FF0000000000000))
         else of_nat (s + min (ieee_round 53 (- 1074) (f64_sig x * f64_sig y) (f64_exp2 x + f64_exp2 y))
                              0x7FF0000000000000))"

text \<open>
  \<open>math.radians(x)\<close> is \<open>x * (pi / 180)\<close> in doubles; the constant is the double
  \<open>0.017453292519943295\<close>. An \<open>int\<close> argument such as \<open>15\<close> is first converted to the
  double of the same value.
\<close>

definition deg_to_rad :: py_float where
  "deg_to_rad = 0x3F91DF46A2529D39"

definition math_radians :: "py_float \<Rightarrow> py_float" where
  "math_radians x = f64_mul x deg_to_rad"

subsection \<open>The motor operations\<close>

text \<open>
  Each method builds its payload, calls \<open>send_can_frame\<close> with the default \<open>retry\<close> and
  sleeps. None of them has a handler, so an exception that leaves \<open>send_can_frame\<close> or
  \<open>struct.pack\<close> leaves the method at that point.
\<close>

definition enable_motor :: "motor \<Rightarrow> int \<Rightarrow> (py_exception + py_value) \<times> motor" where
  "enable_motor st motor_id =
     (let dat = replicate 8 0x00
      in case send_can_frame st 0x03 motor_id dat default_retry of
           (Inl e, st1) \<Rightarrow> (Inl e, st1)
         | (Inr _, st1) \<Rightarrow> (Inr PyNone, sleep_ms 300 st1))"

definition disable_motor :: "motor \<Rightarrow> int \<Rightarrow> (py_exception + py_value) \<times> motor" where
  "disable_motor st motor_id =
     (let dat = replicate 8 0x00
      in case send_can_frame st 0x04 motor_id dat default_retry of
           (Inl e, st1) \<Rightarrow> (Inl e, st1)
         | (Inr _, st1) \<Rightarrow> (Inr PyNone, sleep_ms 300 st1))"

definition stop_motor :: "motor \<Rightarrow> int \<Rightarrow> (py_exception + py_value) \<times> motor" where
  "stop_motor st motor_id =
     (let dat = replicate 8 0x00
      in case send_can_frame st 0x00 motor_id dat default_retry of
           (Inl e, st1) \<Rightarrow> (Inl e, st1)
         | (Inr _, st1) \<Rightarrow> (Inr PyNone, sleep_ms 100 st1))"

text \<open>\<open>0.0\<close>, the value \<open>reset_position\<close> stores.\<close>

definition float_zero :: py_float where
  "float_zero = 0"

definition reset_position :: "motor \<Rightarrow> int \<Rightarrow> (py_exception + py_value) \<times> motor" where
  "reset_position st motor_id =
     (let dat = [0x01] @ replicate 7 0x00
      in case send_can_frame st 0x06 motor_id dat default_retry of
           (Inl e, st1) \<Rightarrow> (Inl e, st1)
         | (Inr _, st1) \<Rightarrow>
             (Inr PyNone,
              sleep_ms 300 (st1\<lparr>last_positions := (last_positions st1)(motor_id \<mapsto> float_zero)\<rparr>)))"

definition set_position_control_mode :: "motor \<Rightarrow> int \<Rightarrow> (py_exception + py_value) \<times> motor" where
  "set_position_control_mode st motor_id =
     (let dat = [0x05, 0x70, 0x00, 0x00, 0x01, 0x00, 0x00, 0x00]
      in case send_can_frame st 0x12 motor_id dat default_retry of
           (Inl e, st1) \<Rightarrow> (Inl e, st1)
         | (Inr _, st1) \<Rightarrow> (Inr PyNone, sleep_ms 200 st1))"

definition set_limit_speed :: "motor \<Rightarrow> int \<Rightarrow> py_float \<Rightarrow> (py_exception + py_value) \<times> motor" where
  "set_limit_speed st motor_id speed_rad_s =
     (case pack_f speed_rad_s of
        Inl e \<Rightarrow> (Inl e, st)
      | Inr speed_bytes \<Rightarrow>
          (let dat = [0x17, 0x70, 0x00, 0x00] @ speed_bytes
           in case send_can_frame st 0x12 motor_id dat default_retry of
                (Inl e, st1) \<Rightarrow> (Inl e, st1)
              | (Inr _, st1) \<Rightarrow> (Inr PyNone, sleep_ms 50 st1)))"

definition set_limit_torque :: "motor \<Rightarrow> int \<Rightarrow> py_float \<Rightarrow> (py_exception + py_value) \<times> motor" where
  "set_limit_torque st motor_id torque_nm =
     (case pack_f torque_nm of
        Inl e \<Rightarrow> (Inl e, st)
      | Inr torque_bytes \<Rightarrow>
          (let dat = [0x18, 0x70, 0x00, 0x00] @ torque_bytes
           in case send_can_frame st 0x12 motor_id dat default_retry of
                (Inl e, st1) \<Rightarrow> (Inl e, st1)
              | (Inr _, st1) \<Rightarrow> (Inr PyNone, sleep_ms 50 st1)))"

definition set_target_position :: "motor \<Rightarrow> int \<Rightarrow> py_float \<Rightarrow> (py_exception + py_value) \<times> motor" where
  "set_target_position st motor_id radians =
     (case pack_f radians of
        Inl e \<Rightarrow> (Inl e, st)
      | Inr pos_bytes \<Rightarrow>
          (let dat = [0x16, 0x70, 0x00, 0x00] @ pos_bytes
           in case send_can_frame st 0x12 motor_id dat default_retry of
                (Inl e, st1) \<Rightarrow> (Inl e, st1)
              | (Inr success, st1) \<Rightarrow>
                  (let st2 = (if success
                              then st1\<lparr>last_positions := (last_positions st1)(motor_id \<mapsto> radians)\<rparr>
                              else st1)
                   in (Inr (PyBool success), sleep_ms 50 st2))))"

definition move_to_degrees ::
  "motor \<Rightarrow> int \<Rightarrow> py_float \<Rightarrow> py_float \<Rightarrow> py_float \<Rightarrow> (py_exception + py_value) \<times> motor" where
  "move_to_degrees st motor_id degrees speed_rad_s torque_nm =
     (let radians = math_radians degrees
      in case set_limit_torque st motor_id torque_nm of
           (Inl e, st1) \<Rightarrow> (Inl e, st1)
         | (Inr _, st1) \<Rightarrow>
             (case set_limit_speed st1 motor_id speed_rad_s of
                (Inl e, st2) \<Rightarrow> (Inl e, st2)
              | (Inr _, st2) \<Rightarrow>
                  (case set_target_position st2 motor_id radians of
                     (Inl e, st3) \<Rightarrow> (Inl e, st3)
                   | (Inr _, st3) \<Rightarrow> (Inr PyNone, st3))))"

subsection \<open>Observing a run\<close>

text \<open>
  The state after \<open>bus.send\<close> has been handed \<open>msg\<close>; the frames handed to the bus
  between two states; how many times \<open>bus.send\<close> was called between them.
\<close>

definition transmitted :: "motor \<Rightarrow> can_message \<Rightarrow> motor" where
  "transmitted st msg = st\<lparr>bus := (bus st)\<lparr>attempts := attempts (bus st) @ [msg]\<rparr>\<rparr>"

definition new_frames :: "motor \<Rightarrow> motor \<Rightarrow> can_message list" where
  "new_frames st st' = drop (length (attempts (bus st))) (attempts (bus st'))"

definition transmit_calls :: "motor \<Rightarrow> motor \<Rightarrow> nat" where
  "transmit_calls st st' = length (attempts (bus st')) - length (attempts (bus st))"

text \<open>
  A bus whose next \<open>N\<close> calls of \<open>send\<close> with the frame \<open>msg\<close> raise an \<open>Exception\<close>, and
  one whose call after those accepts the frame.
\<close>

definition fails_next :: "nat \<Rightarrow> bus_state \<Rightarrow> can_message \<Rightarrow> bool" where
  "fails_next N b msg \<longleftrightarrow>
     list_all (\<lambda>i. case behaviour b (length (attempts b) + i) msg of
                      None \<Rightarrow> False | Some e \<Rightarrow> is_Exception e) [0..<N]"

definition fails_then_accepts :: "nat \<Rightarrow> bus_state \<Rightarrow> can_message \<Rightarrow> bool" where
  "fails_then_accepts N b msg \<longleftrightarrow>
     fails_next N b msg \<and> behaviour b (length (attempts b) + N) msg = None"

text \<open>Three test doubles, each with an empty log.\<close>

definition failing_stub :: "nat \<Rightarrow> bus_state" where
  "failing_stub N =
     \<lparr>behaviour = (\<lambda>k m. if k < N then Some (ExceptionInstance ''CanOperationError'') else None),
      attempts = []\<rparr>"

definition always_failing_bus :: bus_state where
  "always_failing_bus =
     \<lparr>behaviour = (\<lambda>k m. Some (ExceptionInstance ''CanOperationError'')), attempts = []\<rparr>"

definition accepting_bus :: bus_state where
  "accepting_bus = \<lparr>behaviour = (\<lambda>k m. None), attempts = []\<rparr>"

subsection \<open>The decoders the specification speaks of\<close>

text \<open>
  The source only encodes. The inverse of the arbitration id follows the specification's
  words, "the inverse bit-shifts" with the masks of the three field widths.
\<close>

definition decode_can_id :: "int \<Rightarrow> int \<times> int \<times> int" where
  "decode_can_id a = (drop_bit 24 a AND 0xFF, drop_bit 8 a AND 0xFFFF, a AND 0xFF)"

text \<open>
  The inverse of the float payload is \<open>struct.unpack('<f', bytes)\<close>: the four bytes, lowest
  first, read as a single and widened to a double. Widening is exact, so it is the
  rounding of the single's own value to 53 bits.
\<close>

definition from_le_bytes :: "byte list \<Rightarrow> f32 option" where
  "from_le_bytes bs =
     (case bs of
        [b0, b1, b2, b3] \<Rightarrow>
          Some (ucast b0 OR push_bit 8 (ucast b1) OR push_bit 16 (ucast b2) OR push_bit 24 (ucast b3))
      | _ \<Rightarrow> None)"

definition single_to_double :: "f32 \<Rightarrow> py_float" where
  "single_to_double y =
     (let s = f32_sign y * 2 ^ 63
      in if f32_exponent y = 255 then
           (if f32_fraction y = 0 then of_nat (s + 0x7FF0000000000000)
            else of_nat (s + 0x7FF8000000000000 + f32_fraction y mod 2 ^ 22 * 2 ^ 29))
         else of_nat (s + ieee_round 53 (- 1074) (f32_sig y) (f32_exp2 y)))"

definition unpack_f :: "byte list \<Rightarrow> py_float option" where
  "unpack_f bs = map_option single_to_double (from_le_bytes bs)"

subsection \<open>Constants of the scenarios\<close>

text \<open>
  The doubles \<open>15.0\<close> (what \<open>math.radians\<close> makes of the \<open>int\<close> 15 it is handed), \<open>2.0\<close>,
  \<open>12.0\<close> and \<open>0.1\<close>, as bit patterns.
\<close>

definition float_15 :: py_float where
  "float_15 = 0x402E000000000000"

definition float_2 :: py_float where
  "float_2 = 0x4000000000000000"

definition float_12 :: py_float where
  "float_12 = 0x4028000000000000"

definition float_tenth :: py_float where
  "float_tenth = 0x3FB999999999999A"

text \<open>A bus that raises nothing but instances of \<open>Exception\<close>.\<close>

definition never_escapes :: "bus_state \<Rightarrow> bool" where
  "never_escapes b \<longleftrightarrow> (\<forall>k msg e. behaviour b k msg = Some e \<longrightarrow> is_Exception e)"

section \<open>Properties\<close>

subsection \<open>One pass through the loop\<close>

lemma send_loop_done:
  "\<not> attempt < retry \<Longrightarrow> send_loop st msg retry attempt = (Inr False, st)"
  by (subst send_loop.simps) simp

lemma send_loop_accept:
  "attempt < retry \<Longrightarrow> behaviour (bus st) (length (attempts (bus st))) msg = None \<Longrightarrow>
   send_loop st msg retry attempt = (Inr True, sleep_ms 15 (transmitted st msg))"
  by (subst send_loop.simps) (simp add: bus_send_def transmitted_def)

lemma send_loop_last:
  "attempt < retry \<Longrightarrow> behaviour (bus st) (length (attempts (bus st))) msg = Some e \<Longrightarrow>
   is_Exception e \<Longrightarrow> attempt = retry - 1 \<Longrightarrow>
   send_loop st msg retry attempt = (Inr False, transmitted st msg)"
  by (subst send_loop.simps) (simp add: bus_send_def transmitted_def)

lemma send_loop_retry:
  "attempt < retry \<Longrightarrow> behaviour (bus st) (length (attempts (bus st))) msg = Some e \<Longrightarrow>
   is_Exception e \<Longrightarrow> attempt \<noteq> retry - 1 \<Longrightarrow>
   send_loop st msg retry attempt = send_loop (sleep_ms 50 (transmitted st msg)) msg retry (attempt + 1)"
  by (subst send_loop.simps) (simp add: bus_send_def transmitted_def)

lemma send_loop_escape:
  "attempt < retry \<Longrightarrow> behaviour (bus st) (length (attempts (bus st))) msg = Some e \<Longrightarrow>
   \<not> is_Exception e \<Longrightarrow>
   send_loop st msg retry attempt = (Inl e, transmitted st msg)"
  by (subst send_loop.simps) (simp add: bus_send_def transmitted_def)

lemma transmitted_simps:
  "master_id (transmitted st msg) = master_id st"
  "last_positions (transmitted st msg) = last_positions st"
  "behaviour (bus (transmitted st msg)) = behaviour (bus st)"
  "attempts (bus (transmitted st msg)) = attempts (bus st) @ [msg]"
  "slept_ms (transmitted st msg) = slept_ms st"
  by (simp_all add: transmitted_def)

lemma sleep_ms_simps:
  "master_id (sleep_ms d st) = master_id st"
  "last_positions (sleep_ms d st) = last_positions st"
  "bus (sleep_ms d st) = bus st"
  "slept_ms (sleep_ms d st) = slept_ms st + d"
  by (simp_all add: sleep_ms_def)

lemma send_loop_cases:
  obtains (finished) "\<not> attempt < retry" "send_loop st msg retry attempt = (Inr False, st)"
  | (accepted) "attempt < retry" "send_loop st msg retry attempt = (Inr True, sleep_ms 15 (transmitted st msg))"
  | (exhausted) "attempt < retry" "send_loop st msg retry attempt = (Inr False, transmitted st msg)"
  | (escaped) e where "attempt < retry" "send_loop st msg retry attempt = (Inl e, transmitted st msg)"
  | (again) "attempt + 1 < retry"
      "send_loop st msg retry attempt = send_loop (sleep_ms 50 (transmitted st msg)) msg retry (attempt + 1)"
proof (cases "attempt < retry")
  case False
  then show ?thesis using finished send_loop_done by blast
next
  case lt: True
  show ?thesis
  proof (cases "behaviour (bus st) (length (attempts (bus st))) msg")
    case None
    then show ?thesis using accepted lt send_loop_accept by blast
  next
    case (Some e)
    show ?thesis
    proof (cases "is_Exception e")
      case False
      then show ?thesis using escaped lt Some send_loop_escape by blast
    next
      case ex: True
      show ?thesis
      proof (cases "attempt = retry - 1")
        case True
        then show ?thesis using exhausted lt Some ex send_loop_last by blast
      next
        case False
        moreover from False lt have "attempt + 1 < retry" by simp
        ultimately show ?thesis using again lt Some ex send_loop_retry by blast
      qed
    qed
  qed
qed

lemma send_loop_frame:
  "master_id (snd (send_loop st msg retry attempt)) = master_id st \<and>
   last_positions (snd (send_loop st msg retry attempt)) = last_positions st \<and>
   behaviour (bus (snd (send_loop st msg retry attempt))) = behaviour (bus st)"
proof (induction "nat (retry - attempt)" arbitrary: st attempt)
  case 0
  then have "\<not> attempt < retry" by simp
  then show ?case by (simp add: send_loop_done)
next
  case (Suc n)
  show ?case
  proof (cases rule: send_loop_cases[of attempt retry st msg])
    case again
    have "n = nat (retry - (attempt + 1))" using Suc.hyps(2) by simp
    from Suc.hyps(1)[OF this, of "sleep_ms 50 (transmitted st msg)"] again(2)
    show ?thesis by (simp add: transmitted_simps sleep_ms_simps)
  qed (simp_all add: transmitted_simps sleep_ms_simps)
qed

lemma send_loop_attempts:
  "\<exists>k. attempts (bus (snd (send_loop st msg retry attempt))) = attempts (bus st) @ replicate k msg
       \<and> k \<le> nat (retry - attempt) \<and> (attempt < retry \<longrightarrow> 1 \<le> k)"
proof (induction "nat (retry - attempt)" arbitrary: st attempt)
  case 0
  then have "\<not> attempt < retry" by simp
  then show ?case by (simp add: send_loop_done)
next
  case (Suc n)
  have pos: "1 \<le> nat (retry - attempt)" using Suc.hyps(2) by simp
  show ?case
  proof (cases rule: send_loop_cases[of attempt retry st msg])
    case finished
    then show ?thesis by simp
  next
    case accepted
    have "attempts (bus (snd (send_loop st msg retry attempt))) = attempts (bus st) @ replicate 1 msg"
      by (simp add: accepted(2) transmitted_simps sleep_ms_simps)
    then show ?thesis using pos by blast
  next
    case exhausted
    have "attempts (bus (snd (send_loop st msg retry attempt))) = attempts (bus st) @ replicate 1 msg"
      by (simp add: exhausted(2) transmitted_simps)
    then show ?thesis using pos by blast
  next
    case (escaped e)
    have "attempts (bus (snd (send_loop st msg retry attempt))) = attempts (bus st) @ replicate 1 msg"
      by (simp add: escaped(2) transmitted_simps)
    then show ?thesis using pos by blast
  next
    case again
    have n: "n = nat (retry - (attempt + 1))" using Suc.hyps(2) by simp
    from Suc.hyps(1)[OF n, of "sleep_ms 50 (transmitted st msg)"]
    obtain k where k: "attempts (bus (snd (send_loop (sleep_ms 50 (transmitted st msg)) msg retry (attempt + 1))))
        = (attempts (bus st) @ [msg]) @ replicate k msg" "k \<le> n"
      using n by (auto simp: transmitted_simps sleep_ms_simps)
    have "attempts (bus (snd (send_loop st msg retry attempt))) = attempts (bus st) @ replicate (Suc k) msg"
      using k(1) by (simp add: again(2))
    moreover have "Suc k \<le> nat (retry - attempt)" using k(2) Suc.hyps(2) by simp
    ultimately show ?thesis by (metis One_nat_def Suc_le_mono le0)
  qed
qed

subsection \<open>Buses that fail a number of times\<close>

lemma fails_next_Suc:
  "fails_next (Suc N) (bus st) msg \<longleftrightarrow>
     (\<exists>e. behaviour (bus st) (length (attempts (bus st))) msg = Some e \<and> is_Exception e) \<and>
     fails_next N (bus (sleep_ms d (transmitted st msg))) msg"
proof -
  have split: "(\<forall>i\<in>{0..<Suc N}. P i) \<longleftrightarrow> P 0 \<and> (\<forall>i\<in>{0..<N}. P (Suc i))" for P
    by (auto simp: less_Suc_eq_0_disj)
  show ?thesis
    unfolding fails_next_def list_all_iff set_upt split
    by (auto simp: transmitted_simps sleep_ms_simps split: option.splits)
qed

lemma send_loop_exhausts:
  assumes "fails_next N (bus st) msg" and "retry - attempt \<le> int N"
  shows "fst (send_loop st msg retry attempt) = Inr False \<and>
         length (attempts (bus (snd (send_loop st msg retry attempt))))
           = length (attempts (bus st)) + nat (retry - attempt)"
  using assms
proof (induction N arbitrary: st attempt)
  case 0
  then show ?case by (simp add: send_loop_done)
next
  case (Suc N)
  from Suc.prems(1) obtain e where e: "behaviour (bus st) (length (attempts (bus st))) msg = Some e" "is_Exception e"
    and rest: "fails_next N (bus (sleep_ms 50 (transmitted st msg))) msg"
    using fails_next_Suc[of N st msg 50] by blast
  show ?case
  proof (cases "attempt < retry")
    case False
    then show ?thesis by (simp add: send_loop_done)
  next
    case lt: True
    show ?thesis
    proof (cases "attempt = retry - 1")
      case True
      then show ?thesis using lt e by (simp add: send_loop_last transmitted_simps)
    next
      case False
      have eq: "send_loop st msg retry attempt = send_loop (sleep_ms 50 (transmitted st msg)) msg retry (attempt + 1)"
        using lt e False by (rule send_loop_retry)
      have "retry - (attempt + 1) \<le> int N" using Suc.prems(2) by simp
      from Suc.IH[OF rest this] lt False
      show ?thesis
        by (auto simp: eq transmitted_simps sleep_ms_simps nat_diff_distrib)
    qed
  qed
qed

lemma send_loop_succeeds:
  assumes "fails_next N (bus st) msg"
    and "behaviour (bus st) (length (attempts (bus st)) + N) msg = None"
    and "int N < retry - attempt"
  shows "fst (send_loop st msg retry attempt) = Inr True \<and>
         length (attempts (bus (snd (send_loop st msg retry attempt))))
           = length (attempts (bus st)) + N + 1"
  using assms
proof (induction N arbitrary: st attempt)
  case 0
  then show ?case by (simp add: send_loop_accept transmitted_simps sleep_ms_simps)
next
  case (Suc N)
  from Suc.prems(1) obtain e where e: "behaviour (bus st) (length (attempts (bus st))) msg = Some e" "is_Exception e"
    and rest: "fails_next N (bus (sleep_ms 50 (transmitted st msg))) msg"
    using fails_next_Suc[of N st msg 50] by blast
  have lt: "attempt < retry" and nl: "attempt \<noteq> retry - 1" using Suc.prems(3) by simp_all
  have eq: "send_loop st msg retry attempt = send_loop (sleep_ms 50 (transmitted st msg)) msg retry (attempt + 1)"
    using lt e nl by (rule send_loop_retry)
  have acc: "behaviour (bus (sleep_ms 50 (transmitted st msg)))
               (length (attempts (bus (sleep_ms 50 (transmitted st msg)))) + N) msg = None"
    using Suc.prems(2) by (simp add: transmitted_simps sleep_ms_simps)
  have "int N < retry - (attempt + 1)" using Suc.prems(3) by simp
  from Suc.IH[OF rest acc this]
  show ?case by (simp add: eq transmitted_simps sleep_ms_simps)
qed

subsection \<open>The arbitration id\<close>

lemma can_id_decode:
  assumes "0 \<le> c" "c < 2 ^ 8" "0 \<le> m" "m < 2 ^ 16" "0 \<le> d" "d < 2 ^ 8"
  shows "decode_can_id (can_id m c d) = (c, m, d)"
proof -
  have c: "take_bit 8 c = c" and m: "take_bit 16 m = m" and d: "take_bit 8 d = d"
    using assms by (simp_all add: take_bit_int_eq_self)
  have m255: "(255::int) = mask 8" and m65535: "(65535::int) = mask 16" by (simp_all add: mask_eq_exp_minus_1)
  have bc: "bit c n \<Longrightarrow> n < 8" for n using c by (metis bit_take_bit_iff)
  have bm: "bit m n \<Longrightarrow> n < 16" for n using m by (metis bit_take_bit_iff)
  have bd: "bit d n \<Longrightarrow> n < 8" for n using d by (metis bit_take_bit_iff)
  have 1: "drop_bit 24 (can_id m c d) AND 0xFF = c"
    unfolding m255 can_id_def
    by (rule bit_eqI) (auto simp: bit_simps dest: bc bm bd)
  have 2: "drop_bit 8 (can_id m c d) AND 0xFFFF = m"
    unfolding m65535 can_id_def
    by (rule bit_eqI) (auto simp: bit_simps dest: bc bm bd)
  have 3: "can_id m c d AND 0xFF = d"
    unfolding m255 can_id_def
    by (rule bit_eqI) (auto simp: bit_simps dest: bc bm bd)
  show ?thesis by (simp add: decode_can_id_def 1 2 3)
qed

subsection \<open>What \<open>send_can_frame\<close> leaves behind\<close>

lemma send_can_frame_frame:
  "master_id (snd (send_can_frame st c m d r)) = master_id st"
  "last_positions (snd (send_can_frame st c m d r)) = last_positions st"
  "behaviour (bus (snd (send_can_frame st c m d r))) = behaviour (bus st)"
  by (simp_all add: send_can_frame_def send_loop_frame)

lemma send_can_frame_attempts:
  "\<exists>k. 1 \<le> k \<and> k \<le> 3 \<and>
       attempts (bus (snd (send_can_frame st c m d default_retry)))
         = attempts (bus st) @ replicate k (make_msg st c m d)"
  using send_loop_attempts[of st "make_msg st c m d" 3 0]
  by (auto simp: send_can_frame_def default_retry_def)

lemma new_frames_append:
  "attempts (bus st') = attempts (bus st) @ fs \<Longrightarrow> new_frames st st' = fs"
  by (simp add: new_frames_def)

lemma send_can_frame_new_frames:
  "\<exists>k. 1 \<le> k \<and> k \<le> 3 \<and>
       new_frames st (snd (send_can_frame st c m d default_retry)) = replicate k (make_msg st c m d)"
  using send_can_frame_attempts[of st c m d] new_frames_append by metis






lemma new_frames_cong: "bus st' = bus st'' \<Longrightarrow> new_frames st st' = new_frames st st''"
  by (simp add: new_frames_def)

lemma send_can_frame_accepted:
  assumes "behaviour (bus st) (length (attempts (bus st))) (make_msg st c m d) = None"
  shows "send_can_frame st c m d default_retry = (Inr True, sleep_ms 15 (transmitted st (make_msg st c m d)))"
  using assms by (simp add: send_can_frame_def default_retry_def send_loop_accept)

lemma send_can_frame_exhausted:
  assumes "\<forall>k m. \<exists>e. behaviour (bus st) k m = Some e \<and> is_Exception e"
  shows "fst (send_can_frame st c m d default_retry) = Inr False"
proof -
  have "case behaviour (bus st) k (make_msg st c m d) of None \<Rightarrow> False | Some e \<Rightarrow> is_Exception e" for k
  proof -
    from assms obtain e where "behaviour (bus st) k (make_msg st c m d) = Some e" "is_Exception e"
      by blast
    then show ?thesis by simp
  qed
  then have "fails_next 3 (bus st) (make_msg st c m d)"
    by (simp add: fails_next_def list_all_iff)
  from send_loop_exhausts[OF this, of 3 0]
  show ?thesis by (simp add: send_can_frame_def default_retry_def)
qed

subsection \<open>Rounding to a format and back\<close>

lemma bit_length_eq:
  "2 ^ L \<le> n \<Longrightarrow> n < 2 ^ Suc L \<Longrightarrow> bit_length n = Suc L"
proof (induction L arbitrary: n)
  case 0
  then have "n = 1" by simp
  then show ?case by (simp add: bit_length.simps)
next
  case (Suc L)
  have "2 ^ L \<le> n div 2" using Suc.prems(1) by simp
  moreover have "n div 2 < 2 ^ Suc L" using Suc.prems(2) by simp
  ultimately have "bit_length (n div 2) = Suc L" by (rule Suc.IH)
  moreover have "(0::nat) < 2 ^ Suc L" by simp
  then have "n \<noteq> 0" using Suc.prems(1) by linarith
  ultimately show ?case by (subst bit_length.simps) simp
qed

lemma bit_length_bounds:
  "0 < n \<Longrightarrow> \<exists>L. bit_length n = Suc L \<and> 2 ^ L \<le> n \<and> n < 2 ^ Suc L"
proof (induction n rule: less_induct)
  case (less n)
  show ?case
  proof (cases "n = 1")
    case True
    then have "bit_length n = Suc 0" by (simp add: bit_length.simps)
    then show ?thesis using True by auto
  next
    case False
    with less.prems have pos: "0 < n div 2" and lt: "n div 2 < n" by simp_all
    from less.IH[OF lt pos] obtain L where L: "bit_length (n div 2) = Suc L"
      "2 ^ L \<le> n div 2" "n div 2 < 2 ^ Suc L" by blast
    have "bit_length n = Suc (Suc L)"
      using less.prems L(1) by (subst bit_length.simps) simp
    moreover have "2 ^ Suc L \<le> n" using L(2) by simp
    moreover have "n < 2 ^ Suc (Suc L)" using L(3) by simp
    ultimately show ?thesis by blast
  qed
qed

lemma round_half_even_exact: "round_half_even (a * 2 ^ sh) sh = a"
  by (simp add: round_half_even_def)

lemma fields_nat:
  fixes a b c :: nat
  assumes "b < 2 ^ E" "c < 2 ^ F"
  shows "(a * 2 ^ (E + F) + b * 2 ^ F + c) div 2 ^ (E + F) = a"
    and "(a * 2 ^ (E + F) + b * 2 ^ F + c) div 2 ^ F mod 2 ^ E = b"
    and "(a * 2 ^ (E + F) + b * 2 ^ F + c) mod 2 ^ F = c"
proof -
  let ?n = "a * 2 ^ (E + F) + b * 2 ^ F + c"
  have n: "?n = (a * 2 ^ E + b) * 2 ^ F + c" by (simp add: power_add algebra_simps)
  show 3: "?n mod 2 ^ F = c" unfolding n using assms(2) by simp
  have d: "?n div 2 ^ F = a * 2 ^ E + b" unfolding n using assms(2) by simp
  show "?n div 2 ^ F mod 2 ^ E = b" unfolding d using assms(1) by simp
  have "(2::nat) ^ (E + F) = 2 ^ F * 2 ^ E" by (simp add: power_add)
  then have "?n div 2 ^ (E + F) = ?n div 2 ^ F div 2 ^ E"
    by (simp only: div_mult2_eq)
  then show "?n div 2 ^ (E + F) = a" unfolding d using assms(1) by simp
qed

lemma unat_of_nat_64: "k < 2 ^ 64 \<Longrightarrow> unat (of_nat k :: 64 word) = k"
  by (simp add: unat_of_nat)

lemma f64_fields:
  assumes "s < 2" "e < 2048" "m < 2 ^ 52"
  shows "f64_sign (of_nat (s * 2 ^ 63 + e * 2 ^ 52 + m)) = s"
    and "f64_exponent (of_nat (s * 2 ^ 63 + e * 2 ^ 52 + m)) = e"
    and "f64_fraction (of_nat (s * 2 ^ 63 + e * 2 ^ 52 + m)) = m"
proof -
  let ?n = "s * 2 ^ 63 + e * 2 ^ 52 + m"
  have "?n < 2 ^ 64" using assms by simp
  then have u: "unat (of_nat ?n :: 64 word) = ?n" by (rule unat_of_nat_64)
  have e: "e < 2 ^ 11" using assms(2) by simp
  from fields_nat[OF e assms(3), of s]
  show "f64_sign (of_nat ?n) = s" "f64_exponent (of_nat ?n) = e" "f64_fraction (of_nat ?n) = m"
    unfolding f64_sign_def f64_exponent_def f64_fraction_def u by simp_all
qed

lemma decompose_nat:
  fixes n :: nat
  shows "n = n div 2 ^ (E + F) * 2 ^ (E + F) + n div 2 ^ F mod 2 ^ E * 2 ^ F + n mod 2 ^ F"
proof -
  define d where "d = n div 2 ^ F"
  have p: "(2::nat) ^ (E + F) = 2 ^ F * 2 ^ E" by (simp add: power_add)
  have dd: "n div 2 ^ (E + F) = d div 2 ^ E"
    unfolding d_def p by (simp only: div_mult2_eq)
  have "n = d * 2 ^ F + n mod 2 ^ F" unfolding d_def by (rule div_mult_mod_eq[symmetric])
  moreover have "d = d div 2 ^ E * 2 ^ E + d mod 2 ^ E" by (rule div_mult_mod_eq[symmetric])
  ultimately have "n = (d div 2 ^ E * 2 ^ E + d mod 2 ^ E) * 2 ^ F + n mod 2 ^ F" by metis
  also have "\<dots> = d div 2 ^ E * (2 ^ F * 2 ^ E) + d mod 2 ^ E * 2 ^ F + n mod 2 ^ F"
    by (simp only: add_mult_distrib mult.assoc mult.commute[of "2 ^ E" "2 ^ F"])
  finally show ?thesis unfolding p d_def by (simp only: div_mult2_eq)
qed

lemma f32_decompose:
  "y = of_nat (f32_sign y * 2 ^ 31 + f32_exponent y * 2 ^ 23 + f32_fraction y)"
  "f32_sign y < 2" "f32_exponent y < 256" "f32_fraction y < 2 ^ 23"
proof -
  let ?n = "unat y"
  have lt: "?n < 2 ^ 32" using unsigned_less[of y] by simp
  have "?n = f32_sign y * 2 ^ 31 + f32_exponent y * 2 ^ 23 + f32_fraction y"
    unfolding f32_sign_def f32_exponent_def f32_fraction_def
    using decompose_nat[of ?n 8 23] by simp
  then have "of_nat ?n = (of_nat (f32_sign y * 2 ^ 31 + f32_exponent y * 2 ^ 23 + f32_fraction y) :: 32 word)"
    by (rule arg_cong)
  then show "y = of_nat (f32_sign y * 2 ^ 31 + f32_exponent y * 2 ^ 23 + f32_fraction y)"
    by (simp only: of_nat_unat ucast_id)
  have "?n div 2 ^ 31 < 2" using lt by (simp add: div_less_iff_less_mult)
  then show "f32_sign y < 2" unfolding f32_sign_def .
  show "f32_exponent y < 256" unfolding f32_exponent_def by simp
  show "f32_fraction y < 2 ^ 23" unfolding f32_fraction_def by simp
qed

lemma ieee_round_up:
  assumes "0 < sig" and "q = max (e + int (bit_length sig) - int p) qmin" and "q \<le> e"
  shows "ieee_round p qmin sig e = nat (q - qmin) * 2 ^ (p - 1) + sig * 2 ^ nat (e - q)"
  using assms by (simp add: ieee_round_def Let_def)

lemma ieee_round_down_exact:
  assumes "0 < a" and "q = max (e + int (bit_length (a * 2 ^ sh)) - int p) qmin"
    and "e < q" and "sh = nat (q - e)"
  shows "ieee_round p qmin (a * 2 ^ sh) e = nat (q - qmin) * 2 ^ (p - 1) + a"
  using assms by (simp add: ieee_round_def Let_def round_half_even_exact)

lemma widen_normal:
  assumes "1 \<le> e" "e \<le> 254" "m < 2 ^ 23"
  shows "ieee_round 53 (- 1074) (2 ^ 23 + m) (int e - 150) = (e + 896) * 2 ^ 52 + m * 2 ^ 29"
proof -
  define sig where "sig = 2 ^ 23 + m"
  have "bit_length sig = Suc 23"
    using assms(3) by (intro bit_length_eq) (simp_all add: sig_def)
  then have bl: "bit_length sig = 24" by simp
  have pos: "0 < sig" by (simp add: sig_def)
  have "ieee_round 53 (- 1074) sig (int e - 150)
      = nat (int e - 179 - (- 1074)) * 2 ^ (53 - 1) + sig * 2 ^ nat (int e - 150 - (int e - 179))"
    using assms(1) by (intro ieee_round_up pos) (simp_all add: bl)
  also have "nat (int e - 179 - (- 1074)) = e + 895" by simp
  also have "nat (int e - 150 - (int e - 179)) = 29" by simp
  finally show ?thesis by (simp add: sig_def)
qed

lemma narrow_normal:
  assumes "1 \<le> e" "e \<le> 254" "m < 2 ^ 23"
  shows "ieee_round 24 (- 149) (2 ^ 52 + m * 2 ^ 29) (int (e + 896) - 1075) = e * 2 ^ 23 + m"
proof -
  define a where "a = 2 ^ 23 + m"
  have sig: "2 ^ 52 + m * 2 ^ 29 = a * 2 ^ 29" by (simp add: a_def)
  have "bit_length (a * 2 ^ 29) = Suc 52"
    using assms(3) by (intro bit_length_eq) (simp_all add: a_def)
  then have bl: "bit_length (a * 2 ^ 29) = 53" by simp
  have pos: "0 < a" by (simp add: a_def)
  have q: "int e - 150 = max (int (e + 896) - 1075 + int (bit_length (a * 2 ^ 29)) - int 24) (- 149)"
    unfolding bl using assms(1) by simp
  have lt: "int (e + 896) - 1075 < int e - 150" by simp
  have sh: "29 = nat (int e - 150 - (int (e + 896) - 1075))" by simp
  have "ieee_round 24 (- 149) (a * 2 ^ 29) (int (e + 896) - 1075)
      = nat (int e - 150 - (- 149)) * 2 ^ (24 - 1) + a"
    by (rule ieee_round_down_exact[OF pos q lt sh])
  also have "nat (int e - 150 - (- 149)) = e - 1" by simp
  finally have "ieee_round 24 (- 149) (a * 2 ^ 29) (int (e + 896) - 1075)
      = (e - 1) * 2 ^ 23 + a" by simp
  also have "\<dots> = e * 2 ^ 23 + m" using assms(1) by (cases e) (simp_all add: a_def)
  finally show ?thesis unfolding sig .
qed

lemma pow_split: "L \<le> n \<Longrightarrow> (2::nat) ^ L * 2 ^ (n - L) = 2 ^ n"
  by (simp flip: power_add)

lemma widen_subnormal:
  assumes "bit_length m = Suc L" "2 ^ L \<le> m" "m < 2 ^ Suc L" "L \<le> 22"
  shows "ieee_round 53 (- 1074) m (- 149) = (L + 873) * 2 ^ 52 + m * 2 ^ (52 - L)"
proof -
  have pos: "0 < m" using assms(2) by (metis not_gr_zero not_less zero_less_numeral zero_less_power)
  have q: "int L - 201 = max (- 149 + int (bit_length m) - int 53) (- 1074)"
    unfolding assms(1) by simp
  have le: "int L - 201 \<le> - 149" using assms(4) by simp
  have "ieee_round 53 (- 1074) m (- 149)
      = nat (int L - 201 - (- 1074)) * 2 ^ (53 - 1) + m * 2 ^ nat (- 149 - (int L - 201))"
    by (rule ieee_round_up[OF pos q le])
  also have "nat (int L - 201 - (- 1074)) = L + 873" by simp
  also have "nat (- 149 - (int L - 201)) = 52 - L" using assms(4) by simp
  finally show ?thesis by simp
qed

lemma subnormal_scaled:
  fixes m :: nat
  assumes "2 ^ L \<le> m" "m < 2 ^ Suc L" "L \<le> 22"
  shows "2 ^ 52 \<le> m * 2 ^ (52 - L)" and "m * 2 ^ (52 - L) < 2 ^ 53"
proof -
  have L: "L \<le> 52" using assms(3) by simp
  have "2 ^ L * 2 ^ (52 - L) \<le> m * 2 ^ (52 - L)" using assms(1) by simp
  then show "2 ^ 52 \<le> m * 2 ^ (52 - L)" unfolding pow_split[OF L] .
  have "m * 2 ^ (52 - L) < 2 ^ Suc L * 2 ^ (52 - L)" using assms(2) by simp
  also have "\<dots> = 2 * (2 ^ L * 2 ^ (52 - L))" by simp
  also have "\<dots> = 2 ^ 53" unfolding pow_split[OF L] by simp
  finally show "m * 2 ^ (52 - L) < 2 ^ 53" .
qed

lemma narrow_subnormal:
  fixes m :: nat
  assumes "2 ^ L \<le> m" "m < 2 ^ Suc L" "L \<le> 22"
  shows "ieee_round 24 (- 149) (m * 2 ^ (52 - L)) (int (L + 874) - 1075) = m"
proof -
  have pos: "0 < m" using assms(1) by (metis not_gr_zero not_less zero_less_numeral zero_less_power)
  have "bit_length (m * 2 ^ (52 - L)) = Suc 52"
    using subnormal_scaled[OF assms] by (intro bit_length_eq) simp_all
  then have bl: "bit_length (m * 2 ^ (52 - L)) = 53" by simp
  have q: "- 149 = max (int (L + 874) - 1075 + int (bit_length (m * 2 ^ (52 - L))) - int 24) (- 149)"
    unfolding bl using assms(3) by simp
  have lt: "int (L + 874) - 1075 < - 149" using assms(3) by simp
  have sh: "52 - L = nat (- 149 - (int (L + 874) - 1075))" using assms(3) by simp
  have "ieee_round 24 (- 149) (m * 2 ^ (52 - L)) (int (L + 874) - 1075)
      = nat (- 149 - (- 149)) * 2 ^ (24 - 1) + m"
    by (rule ieee_round_down_exact[OF pos q lt sh])
  then show ?thesis by simp
qed

lemma f64_fields_of:
  assumes "n = s * 2 ^ 63 + e * 2 ^ 52 + m" "s < 2" "e < 2048" "m < 2 ^ 52"
  shows "f64_sign (of_nat n) = s" "f64_exponent (of_nat n) = e" "f64_fraction (of_nat n) = m"
  unfolding assms(1) using f64_fields[OF assms(2-4)] by blast+

lemma single_to_double_finite:
  "f32_exponent y \<noteq> 255 \<Longrightarrow>
   single_to_double y = of_nat (f32_sign y * 2 ^ 63 + ieee_round 53 (- 1074) (f32_sig y) (f32_exp2 y))"
  by (simp only: single_to_double_def Let_def if_False)

lemma double_to_single_finite:
  "f64_exponent x \<noteq> 2047 \<Longrightarrow>
   double_to_single x
     = of_nat (f64_sign x * 2 ^ 31 + min (ieee_round 24 (- 149) (f64_sig x) (f64_exp2 x)) 0x7F800000)"
  by (simp only: double_to_single_def Let_def if_False)

lemma narrow_widen:
  assumes "\<not> f32_is_nan y"
  shows "double_to_single (single_to_double y) = y"
    and "f64_is_inf (single_to_double y) \<longleftrightarrow> f32_is_inf y"
proof -
  define s e m where "s = f32_sign y" and "e = f32_exponent y" and "m = f32_fraction y"
  have y: "y = of_nat (s * 2 ^ 31 + e * 2 ^ 23 + m)" and s: "s < 2" and e: "e < 256" and m: "m < 2 ^ 23"
    unfolding s_def e_def m_def by (rule f32_decompose)+
  have goal: "double_to_single (single_to_double y) = y
      \<and> (f64_is_inf (single_to_double y) \<longleftrightarrow> f32_is_inf y)"
  proof (cases "e = 255")
    case True
    with assms have m0: "m = 0" by (simp add: f32_is_nan_def e_def m_def)
    define n where "n = s * 2 ^ 63 + 2047 * 2 ^ 52 + (0::nat)"
    have x: "single_to_double y = of_nat n"
      using True m0 by (simp add: single_to_double_def e_def[symmetric] m_def[symmetric] s_def[symmetric] n_def)
    have f: "f64_sign (of_nat n) = s" "f64_exponent (of_nat n) = 2047" "f64_fraction (of_nat n) = 0"
      by (rule f64_fields_of[OF n_def s], simp, simp)+
    have "double_to_single (of_nat n) = of_nat (s * 2 ^ 31 + 255 * 2 ^ 23 + 0)"
      by (simp add: double_to_single_def f)
    also have "\<dots> = of_nat (s * 2 ^ 31 + e * 2 ^ 23 + m)" using True m0 by simp
    also have "\<dots> = y" by (rule y[symmetric])
    finally have "double_to_single (single_to_double y) = y" unfolding x .
    moreover have "f64_is_inf (single_to_double y)" unfolding x by (simp add: f64_is_inf_def f)
    moreover have "f32_is_inf y" using True m0 by (simp add: f32_is_inf_def e_def m_def)
    ultimately show ?thesis by simp
  next
    case False
    then have e254: "e \<le> 254" using e by simp
    have ninf: "\<not> f32_is_inf y" using False by (simp add: f32_is_inf_def e_def)
    have sd: "single_to_double y = of_nat (s * 2 ^ 63 + ieee_round 53 (- 1074) (f32_sig y) (f32_exp2 y))"
      unfolding s_def using False by (intro single_to_double_finite) (simp add: e_def)
    have core: "\<exists>n E M. single_to_double y = of_nat n \<and> n = s * 2 ^ 63 + E * 2 ^ 52 + M \<and> E < 2047
        \<and> M < 2 ^ 52 \<and> ieee_round 24 (- 149) (if E = 0 then M else 2 ^ 52 + M) (int (max 1 E) - 1075)
            = e * 2 ^ 23 + m"
    proof (cases "e = 0")
      case e0: True
      show ?thesis
      proof (cases "m = 0")
        case True
        have "f32_sig y = 0" using e0 True by (simp add: f32_sig_def e_def m_def)
        then have "single_to_double y = of_nat (s * 2 ^ 63 + 0 * 2 ^ 52 + 0)"
          unfolding sd by (simp add: ieee_round_def)
        moreover have "ieee_round 24 (- 149) (if (0::nat) = 0 then 0 else 2 ^ 52 + 0) (int (max 1 0) - 1075)
            = e * 2 ^ 23 + m"
          using e0 True by (simp add: ieee_round_def)
        ultimately show ?thesis
          by (intro exI[of _ "s * 2 ^ 63 + 0 * 2 ^ 52 + 0"] exI[of _ 0] conjI refl) simp_all
      next
        case False
        then obtain L where L: "bit_length m = Suc L" "2 ^ L \<le> m" "m < 2 ^ Suc L"
          using bit_length_bounds[of m] by auto
        have "(2::nat) ^ L < 2 ^ 23" using L(2) m by (rule le_less_trans)
        then have "L < 23" by (rule power_less_imp_less_exp[rotated]) simp
        then have L22: "L \<le> 22" by simp
        define k where "k = m * 2 ^ (52 - L)"
        have k: "2 ^ 52 \<le> k" "k < 2 ^ 53" unfolding k_def by (rule subnormal_scaled[OF L(2,3) L22])+
        have sig: "f32_sig y = m" and ex: "f32_exp2 y = - 149"
          using e0 by (simp_all add: f32_sig_def f32_exp2_def e_def m_def)
        have "ieee_round 53 (- 1074) (f32_sig y) (f32_exp2 y) = (L + 873) * 2 ^ 52 + k"
          unfolding sig ex k_def by (rule widen_subnormal[OF L L22])
        also have "\<dots> = (L + 874) * 2 ^ 52 + (k - 2 ^ 52)" using k(1) by simp
        finally have x: "single_to_double y = of_nat (s * 2 ^ 63 + (L + 874) * 2 ^ 52 + (k - 2 ^ 52))"
          unfolding sd by (simp only: add.assoc)
        have "ieee_round 24 (- 149) k (int (L + 874) - 1075) = m"
          unfolding k_def by (rule narrow_subnormal[OF L(2,3) L22])
        moreover have "2 ^ 52 + (k - 2 ^ 52) = k" using k(1) by simp
        ultimately have r: "ieee_round 24 (- 149) (if L + 874 = 0 then k - 2 ^ 52 else 2 ^ 52 + (k - 2 ^ 52))
            (int (max 1 (L + 874)) - 1075) = e * 2 ^ 23 + m"
          using e0 by simp
        have E: "L + 874 < 2047" using L22 by simp
        have M: "k - 2 ^ 52 < 2 ^ 52" using k(2) by simp
        show ?thesis
          by (intro exI[of _ "s * 2 ^ 63 + (L + 874) * 2 ^ 52 + (k - 2 ^ 52)"] exI[of _ "L + 874"]
              exI[of _ "k - 2 ^ 52"] conjI x refl E M r)
      qed
    next
      case False
      then have e1: "1 \<le> e" by simp
      have sig: "f32_sig y = 2 ^ 23 + m" and ex: "f32_exp2 y = int e - 150"
        using False by (simp_all add: f32_sig_def f32_exp2_def e_def m_def)
      have x: "single_to_double y = of_nat (s * 2 ^ 63 + (e + 896) * 2 ^ 52 + m * 2 ^ 29)"
        unfolding sd sig ex widen_normal[OF e1 e254 m] by (simp only: add.assoc)
      have "ieee_round 24 (- 149) (2 ^ 52 + m * 2 ^ 29) (int (e + 896) - 1075) = e * 2 ^ 23 + m"
        by (rule narrow_normal[OF e1 e254 m])
      then have r: "ieee_round 24 (- 149) (if e + 896 = 0 then m * 2 ^ 29 else 2 ^ 52 + m * 2 ^ 29)
            (int (max 1 (e + 896)) - 1075) = e * 2 ^ 23 + m"
        by simp
      have M: "m * 2 ^ 29 < 2 ^ 52" using m by simp
      have E: "e + 896 < 2047" using e254 by simp
      show ?thesis
        by (intro exI[of _ "s * 2 ^ 63 + (e + 896) * 2 ^ 52 + m * 2 ^ 29"] exI[of _ "e + 896"]
            exI[of _ "m * 2 ^ 29"] conjI x refl E M r)
    qed
    then obtain n E M where n: "single_to_double y = of_nat n" "n = s * 2 ^ 63 + E * 2 ^ 52 + M"
      "E < 2047" "M < 2 ^ 52"
      and r: "ieee_round 24 (- 149) (if E = 0 then M else 2 ^ 52 + M) (int (max 1 E) - 1075) = e * 2 ^ 23 + m"
      by blast
    have E: "E < 2048" using n(3) by simp
    have f: "f64_sign (of_nat n) = s" "f64_exponent (of_nat n) = E" "f64_fraction (of_nat n) = M"
      by (rule f64_fields_of[OF n(2) s E n(4)])+
    have fin: "f64_exponent (of_nat n :: 64 word) \<noteq> 2047" unfolding f using n(3) by simp
    have small: "e * 2 ^ 23 + m < 0x7F800000" using e254 m by simp
    have "double_to_single (of_nat n) = of_nat (s * 2 ^ 31 + min (e * 2 ^ 23 + m) 0x7F800000)"
      unfolding double_to_single_finite[OF fin] f64_sig_def f64_exp2_def f r ..
    also have "min (e * 2 ^ 23 + m) 0x7F800000 = e * 2 ^ 23 + m" using small by simp
    also have "of_nat (s * 2 ^ 31 + (e * 2 ^ 23 + m)) = (of_nat (s * 2 ^ 31 + e * 2 ^ 23 + m) :: 32 word)"
      by (simp only: add.assoc)
    also have "\<dots> = y" by (rule y[symmetric])
    finally have "double_to_single (single_to_double y) = y" unfolding n(1) .
    moreover have "\<not> f64_is_inf (single_to_double y)"
      unfolding n(1) f64_is_inf_def f using n(3) by simp
    ultimately show ?thesis using ninf by simp
  qed
  from goal show "double_to_single (single_to_double y) = y"
    and "f64_is_inf (single_to_double y) \<longleftrightarrow> f32_is_inf y" by blast+
qed

subsection \<open>Packing, unpacking and the float-writing operations\<close>

lemma le_bytes_inverse: "from_le_bytes (le_bytes y) = Some y"
proof -
  have "ucast (ucast y :: byte) OR push_bit 8 (ucast (ucast (drop_bit 8 y) :: byte))
        OR push_bit 16 (ucast (ucast (drop_bit 16 y) :: byte))
        OR push_bit 24 (ucast (ucast (drop_bit 24 y) :: byte)) = y"
  proof (rule bit_word_eqI)
    fix n assume n: "n < LENGTH(32)"
    consider "n < 8" | "8 \<le> n" "n < 16" | "16 \<le> n" "n < 24" | "24 \<le> n" "n < 32"
      using n by fastforce
    then show "bit (ucast (ucast y :: byte) OR push_bit 8 (ucast (ucast (drop_bit 8 y) :: byte))
        OR push_bit 16 (ucast (ucast (drop_bit 16 y) :: byte))
        OR push_bit 24 (ucast (ucast (drop_bit 24 y) :: byte)) :: 32 word) n = bit y n"
      by cases (auto simp: bit_simps)
  qed
  then show ?thesis by (simp add: from_le_bytes_def le_bytes_def)
qed

lemma length_le_bytes: "length (le_bytes y) = 4"
  by (simp add: le_bytes_def)

lemma pack_f_widened:
  assumes "\<not> f32_is_nan y"
  shows "pack_f (single_to_double y) = Inr (le_bytes y)"
  using narrow_widen[OF assms] by (simp add: pack_f_def Let_def)

lemma unpack_f_le_bytes: "unpack_f (le_bytes y) = Some (single_to_double y)"
  by (simp add: unpack_f_def le_bytes_inverse)


lemma set_limit_speed_bus:
  "pack_f x = Inr bs \<Longrightarrow> bus (snd (set_limit_speed st m x))
     = bus (snd (send_can_frame st 0x12 m ([0x17, 0x70, 0x00, 0x00] @ bs) default_retry))"
  by (simp add: set_limit_speed_def sleep_ms_simps split: prod.splits sum.splits)

lemma set_limit_speed_result:
  "pack_f x = Inr bs \<Longrightarrow>
   fst (set_limit_speed st m x)
     = (case fst (send_can_frame st 0x12 m ([0x17, 0x70, 0x00, 0x00] @ bs) default_retry) of
          Inl e \<Rightarrow> Inl e | Inr b \<Rightarrow> Inr PyNone)"
  by (simp add: set_limit_speed_def split: prod.splits sum.splits)




lemma set_limit_torque_bus:
  "pack_f x = Inr bs \<Longrightarrow> bus (snd (set_limit_torque st m x))
     = bus (snd (send_can_frame st 0x12 m ([0x18, 0x70, 0x00, 0x00] @ bs) default_retry))"
  by (simp add: set_limit_torque_def sleep_ms_simps split: prod.splits sum.splits)

lemma set_limit_torque_result:
  "pack_f x = Inr bs \<Longrightarrow>
   fst (set_limit_torque st m x)
     = (case fst (send_can_frame st 0x12 m ([0x18, 0x70, 0x00, 0x00] @ bs) default_retry) of
          Inl e \<Rightarrow> Inl e | Inr b \<Rightarrow> Inr PyNone)"
  by (simp add: set_limit_torque_def split: prod.splits sum.splits)



lemma set_target_position_overflow: "pack_f x = Inl e \<Longrightarrow> set_target_position st m x = (Inl e, st)"
  by (simp add: set_target_position_def)

lemma set_target_position_bus:
  "pack_f x = Inr bs \<Longrightarrow> bus (snd (set_target_position st m x))
     = bus (snd (send_can_frame st 0x12 m ([0x16, 0x70, 0x00, 0x00] @ bs) default_retry))"
  by (simp add: set_target_position_def Let_def sleep_ms_simps split: prod.splits sum.splits)

lemma set_target_position_result:
  "pack_f x = Inr bs \<Longrightarrow>
   fst (set_target_position st m x)
     = (case fst (send_can_frame st 0x12 m ([0x16, 0x70, 0x00, 0x00] @ bs) default_retry) of
          Inl e \<Rightarrow> Inl e | Inr b \<Rightarrow> Inr (PyBool b))"
  by (simp add: set_target_position_def Let_def split: prod.splits sum.splits)

lemma set_target_position_snd:
  "pack_f x = Inr bs \<Longrightarrow>
   snd (set_target_position st m x)
     = (case fst (send_can_frame st 0x12 m ([0x16, 0x70, 0x00, 0x00] @ bs) default_retry) of
          Inl e \<Rightarrow> snd (send_can_frame st 0x12 m ([0x16, 0x70, 0x00, 0x00] @ bs) default_retry)
        | Inr success \<Rightarrow>
            sleep_ms 50
              (if success
               then (snd (send_can_frame st 0x12 m ([0x16, 0x70, 0x00, 0x00] @ bs) default_retry))
                      \<lparr>last_positions :=
                         (last_positions (snd (send_can_frame st 0x12 m ([0x16, 0x70, 0x00, 0x00] @ bs) default_retry)))
                           (m \<mapsto> x)\<rparr>
               else snd (send_can_frame st 0x12 m ([0x16, 0x70, 0x00, 0x00] @ bs) default_retry)))"
  by (simp add: set_target_position_def Let_def split: prod.splits sum.splits)

lemma set_target_position_master:
  "master_id (snd (set_target_position st m x)) = master_id st"
proof (cases "pack_f x")
  case (Inl e)
  then show ?thesis by (simp add: set_target_position_overflow)
next
  case (Inr bs)
  show ?thesis unfolding set_target_position_snd[OF Inr]
    by (simp add: send_can_frame_frame sleep_ms_simps split: sum.splits)
qed

lemma set_target_position_cache:
  assumes "pack_f x = Inr bs"
  shows "last_positions (snd (set_target_position st m x))
     = (if fst (send_can_frame st 0x12 m ([0x16, 0x70, 0x00, 0x00] @ bs) default_retry) = Inr True
        then (last_positions st)(m \<mapsto> x) else last_positions st)"
  unfolding set_target_position_snd[OF assms]
  by (simp add: send_can_frame_frame sleep_ms_simps split: sum.splits)

lemma reset_position_snd:
  "snd (reset_position st m)
     = (case fst (send_can_frame st 0x06 m ([0x01] @ replicate 7 0) default_retry) of
          Inl e \<Rightarrow> snd (send_can_frame st 0x06 m ([0x01] @ replicate 7 0) default_retry)
        | Inr b \<Rightarrow>
            sleep_ms 300
              ((snd (send_can_frame st 0x06 m ([0x01] @ replicate 7 0) default_retry))
                 \<lparr>last_positions :=
                    (last_positions (snd (send_can_frame st 0x06 m ([0x01] @ replicate 7 0) default_retry)))
                      (m \<mapsto> float_zero)\<rparr>))"
  by (simp add: reset_position_def split: prod.splits sum.splits)

lemma reset_position_cache:
  assumes "fst (send_can_frame st 0x06 m ([0x01] @ replicate 7 0) default_retry) = Inr b"
  shows "last_positions (snd (reset_position st m)) = (last_positions st)(m \<mapsto> float_zero)"
  unfolding reset_position_snd assms
  by (simp add: send_can_frame_frame sleep_ms_simps)

subsection \<open>Evaluating the float functions on constants\<close>

lemma bit_length_numeral:
  "bit_length (numeral n) = Suc (bit_length (numeral n div 2))"
  by (subst bit_length.simps) simp

lemma bit_length_small: "bit_length 0 = 0" "bit_length (Suc 0) = Suc 0"
  by (subst bit_length.simps, simp add: bit_length.simps)+

lemmas float_eval = pack_f_def double_to_single_def f64_sign_def f64_exponent_def f64_fraction_def
  f64_sig_def f64_exp2_def f64_is_inf_def f64_is_nan_def f64_is_zero_def f32_is_inf_def f32_is_nan_def
  f32_sign_def f32_exponent_def f32_fraction_def f32_sig_def f32_exp2_def
  ieee_round_def round_half_even_def le_bytes_def Let_def bit_length_numeral bit_length_small
  math_radians_def f64_mul_def deg_to_rad_def unpack_f_def from_le_bytes_def single_to_double_def
  float_15_def float_2_def float_12_def float_tenth_def

lemma pack_float_12: "pack_f float_12 = Inr [0x00, 0x00, 0x40, 0x41]"
  by (simp add: float_eval)

lemma pack_float_2: "pack_f float_2 = Inr [0x00, 0x00, 0x00, 0x40]"
  by (simp add: float_eval)

lemma radians_float_15: "math_radians float_15 = 0x3FD0C152382D7365"
  by (simp add: float_eval)

lemma pack_radians_15: "pack_f 0x3FD0C152382D7365 = Inr [0x92, 0x0A, 0x86, 0x3E]"
  by (simp add: float_eval)

lemma pack_float_tenth: "pack_f float_tenth = Inr [0xCD, 0xCC, 0xCC, 0x3D]"
  by (simp add: float_eval)

lemma unpack_float_tenth: "unpack_f [0xCD, 0xCC, 0xCC, 0x3D] = Some 0x3FB99999A0000000"
  by (simp add: float_eval)

lemma float_write_new_frames:
  assumes "bus st' = bus (snd (send_can_frame st 0x12 m d default_retry))"
  shows "\<exists>k. 1 \<le> k \<and> k \<le> 3 \<and> new_frames st st' = replicate k (make_msg st 0x12 m d)"
  using send_can_frame_new_frames[of st "0x12" m d] new_frames_cong[OF assms, of st] by simp

lemma float_constant_values:
  "f64_sign float_15 = 0 \<and> f64_sig float_15 = 15 * 2 ^ 49 \<and> f64_exp2 float_15 = - 49"
  "f64_sign float_2 = 0 \<and> f64_sig float_2 = 2 * 2 ^ 51 \<and> f64_exp2 float_2 = - 51"
  "f64_sign float_12 = 0 \<and> f64_sig float_12 = 12 * 2 ^ 49 \<and> f64_exp2 float_12 = - 49"
  "f64_sign float_zero = 0 \<and> f64_sig float_zero = 0"
  by (simp_all add: float_eval float_zero_def)

subsection \<open>Buses that raise only \<open>Exception\<close>, and \<open>move_to_degrees\<close>\<close>

lemma send_loop_returns:
  assumes "never_escapes (bus st)"
  shows "\<exists>b. fst (send_loop st msg retry attempt) = Inr b"
  using assms
proof (induction "nat (retry - attempt)" arbitrary: st attempt)
  case 0
  then have "\<not> attempt < retry" by simp
  then show ?case by (auto simp: send_loop_done)
next
  case (Suc n)
  then have lt: "attempt < retry" by simp
  show ?case
  proof (cases "behaviour (bus st) (length (attempts (bus st))) msg")
    case None
    then show ?thesis using lt by (auto simp: send_loop_accept)
  next
    case (Some e)
    with Suc.prems have ex: "is_Exception e" by (auto simp: never_escapes_def)
    show ?thesis
    proof (cases "attempt = retry - 1")
      case True
      then show ?thesis using lt Some ex by (auto simp: send_loop_last)
    next
      case False
      have eq: "send_loop st msg retry attempt = send_loop (sleep_ms 50 (transmitted st msg)) msg retry (attempt + 1)"
        using lt Some ex False by (rule send_loop_retry)
      have n: "n = nat (retry - (attempt + 1))" using Suc.hyps(2) by simp
      have ne: "never_escapes (bus (sleep_ms 50 (transmitted st msg)))"
        using Suc.prems by (simp add: never_escapes_def transmitted_simps sleep_ms_simps)
      from Suc.hyps(1)[OF n ne] show ?thesis by (simp add: eq)
    qed
  qed
qed

lemma send_can_frame_returns:
  "never_escapes (bus st) \<Longrightarrow> \<exists>b. fst (send_can_frame st c m d r) = Inr b"
  by (simp add: send_can_frame_def send_loop_returns)

lemma never_escapes_cong: "behaviour b' = behaviour b \<Longrightarrow> never_escapes b' = never_escapes b"
  by (simp add: never_escapes_def)

lemma never_escapes_send:
  "bus st' = bus (snd (send_can_frame st c m d r)) \<Longrightarrow> never_escapes (bus st') = never_escapes (bus st)"
  by (rule never_escapes_cong) (simp add: send_can_frame_frame)

lemma move_to_degrees_stages:
  assumes "fst (move_to_degrees st m d sp tq) = Inr v"
  shows "v = PyNone"
    and "snd (move_to_degrees st m d sp tq)
          = snd (set_target_position (snd (set_limit_speed (snd (set_limit_torque st m tq)) m sp)) m
                   (math_radians d))"
  using assms by (auto simp: move_to_degrees_def Let_def split: prod.splits sum.splits)

lemma move_to_degrees_returns:
  assumes "never_escapes (bus st)"
    and "pack_f tq = Inr bt" "pack_f sp = Inr bsp" "pack_f (math_radians d) = Inr bp"
  shows "fst (move_to_degrees st m d sp tq) = Inr PyNone"
proof -
  define st1 where "st1 = snd (set_limit_torque st m tq)"
  define st2 where "st2 = snd (set_limit_speed st1 m sp)"
  obtain b1 where "fst (send_can_frame st 0x12 m ([0x18, 0x70, 0x00, 0x00] @ bt) default_retry) = Inr b1"
    using send_can_frame_returns[OF assms(1)] by blast
  then have r1: "fst (set_limit_torque st m tq) = Inr PyNone"
    by (simp add: set_limit_torque_result[OF assms(2)])
  have ne1: "never_escapes (bus st1)"
    unfolding st1_def using never_escapes_send[OF set_limit_torque_bus[OF assms(2)]] assms(1) by simp
  obtain b2 where "fst (send_can_frame st1 0x12 m ([0x17, 0x70, 0x00, 0x00] @ bsp) default_retry) = Inr b2"
    using send_can_frame_returns[OF ne1] by blast
  then have r2: "fst (set_limit_speed st1 m sp) = Inr PyNone"
    by (simp add: set_limit_speed_result[OF assms(3)])
  have ne2: "never_escapes (bus st2)"
    unfolding st2_def using never_escapes_send[OF set_limit_speed_bus[OF assms(3)]] ne1 by simp
  obtain b3 where "fst (send_can_frame st2 0x12 m ([0x16, 0x70, 0x00, 0x00] @ bp) default_retry) = Inr b3"
    using send_can_frame_returns[OF ne2] by blast
  then have r3: "fst (set_target_position st2 m (math_radians d)) = Inr (PyBool b3)"
    by (simp add: set_target_position_result[OF assms(4)])
  have e1: "set_limit_torque st m tq = (Inr PyNone, st1)"
    using r1 by (simp add: prod_eq_iff st1_def)
  have e2: "set_limit_speed st1 m sp = (Inr PyNone, st2)"
    using r2 by (simp add: prod_eq_iff st2_def)
  have e3: "set_target_position st2 m (math_radians d)
      = (Inr (PyBool b3), snd (set_target_position st2 m (math_radians d)))"
    using r3 by (simp add: prod_eq_iff)
  show ?thesis
    unfolding move_to_degrees_def Let_def e1 by (simp add: e2, subst e3, simp)
qed




lemma never_escapes_stubs:
  "never_escapes (bus (init accepting_bus))" "never_escapes (bus (init always_failing_bus))"
  "never_escapes (bus (init (failing_stub N)))"
  by (simp_all add: never_escapes_def init_def accepting_bus_def always_failing_bus_def failing_stub_def)

lemma accepting_send:
  "send_can_frame (init accepting_bus) c m d default_retry
     = (Inr True, sleep_ms 15 (transmitted (init accepting_bus) (make_msg (init accepting_bus) c m d)))"
  by (rule send_can_frame_accepted) (simp add: init_def accepting_bus_def)

lemma always_failing_send:
  "fst (send_can_frame (init always_failing_bus) c m d default_retry) = Inr False"
  by (rule send_can_frame_exhausted) (simp add: init_def always_failing_bus_def)

lemma fst_enable_motor:
  "fst (enable_motor st m) = (case fst (send_can_frame st 0x03 m (replicate 8 0) default_retry) of
      Inl e \<Rightarrow> Inl e | Inr b \<Rightarrow> Inr PyNone)"
  by (simp add: enable_motor_def split: prod.splits sum.splits)

lemma fst_disable_motor:
  "fst (disable_motor st m) = (case fst (send_can_frame st 0x04 m (replicate 8 0) default_retry) of
      Inl e \<Rightarrow> Inl e | Inr b \<Rightarrow> Inr PyNone)"
  by (simp add: disable_motor_def split: prod.splits sum.splits)

lemma fst_stop_motor:
  "fst (stop_motor st m) = (case fst (send_can_frame st 0x00 m (replicate 8 0) default_retry) of
      Inl e \<Rightarrow> Inl e | Inr b \<Rightarrow> Inr PyNone)"
  by (simp add: stop_motor_def split: prod.splits sum.splits)

lemma fst_reset_position:
  "fst (reset_position st m) = (case fst (send_can_frame st 0x06 m ([0x01] @ replicate 7 0) default_retry) of
      Inl e \<Rightarrow> Inl e | Inr b \<Rightarrow> Inr PyNone)"
  by (simp add: reset_position_def split: prod.splits sum.splits)

lemma fst_set_position_control_mode:
  "fst (set_position_control_mode st m)
     = (case fst (send_can_frame st 0x12 m [0x05, 0x70, 0x00, 0x00, 0x01, 0x00, 0x00, 0x00] default_retry) of
          Inl e \<Rightarrow> Inl e | Inr b \<Rightarrow> Inr PyNone)"
  by (simp add: set_position_control_mode_def split: prod.splits sum.splits)

section \<open>The claims\<close>

text \<open>
  C1. Against a bus that raises on the next \<open>N\<close> transmissions of the frame and accepts
  the one after, \<open>send_can_frame\<close> with \<open>retry > N\<close> returns \<open>True\<close> after exactly
  \<open>N + 1\<close> calls of \<open>bus.send\<close>, and with \<open>retry \<le> N\<close> returns \<open>False\<close> after exactly
  \<open>retry\<close> calls (none when \<open>retry\<close> is negative, the range being empty); the default of
  \<open>retry\<close> is 3.
\<close>

theorem send_can_frame_retry_count:
  assumes "fails_then_accepts N (bus st) (make_msg st cmd_id motor_id dat)"
  shows "(int N < retry \<longrightarrow>
            fst (send_can_frame st cmd_id motor_id dat retry) = Inr True \<and>
            transmit_calls st (snd (send_can_frame st cmd_id motor_id dat retry)) = N + 1)
       \<and> (retry \<le> int N \<longrightarrow>
            fst (send_can_frame st cmd_id motor_id dat retry) = Inr False \<and>
            transmit_calls st (snd (send_can_frame st cmd_id motor_id dat retry)) = nat retry)
       \<and> default_retry = 3"
proof -
  let ?msg = "make_msg st cmd_id motor_id dat"
  from assms have f: "fails_next N (bus st) ?msg"
    and a: "behaviour (bus st) (length (attempts (bus st)) + N) ?msg = None"
    by (simp_all add: fails_then_accepts_def)
  have "int N < retry \<Longrightarrow> fst (send_loop st ?msg retry 0) = Inr True \<and>
         length (attempts (bus (snd (send_loop st ?msg retry 0)))) = length (attempts (bus st)) + N + 1"
    using send_loop_succeeds[OF f a, of retry 0] by simp
  moreover have "retry \<le> int N \<Longrightarrow> fst (send_loop st ?msg retry 0) = Inr False \<and>
         length (attempts (bus (snd (send_loop st ?msg retry 0)))) = length (attempts (bus st)) + nat retry"
    using send_loop_exhausts[OF f, of retry 0] by simp
  ultimately show ?thesis
    by (simp add: send_can_frame_def transmit_calls_def default_retry_def)
qed

theorem send_can_frame_retry_count_witness:
  "fails_then_accepts 2 (bus (init (failing_stub 2))) (make_msg (init (failing_stub 2)) 0x03 1 (replicate 8 0))
   \<and> fst (send_can_frame (init (failing_stub 2)) 0x03 1 (replicate 8 0) 3) = Inr True
   \<and> transmit_calls (init (failing_stub 2)) (snd (send_can_frame (init (failing_stub 2)) 0x03 1 (replicate 8 0) 3)) = 3
   \<and> fst (send_can_frame (init (failing_stub 2)) 0x03 1 (replicate 8 0) 2) = Inr False
   \<and> transmit_calls (init (failing_stub 2)) (snd (send_can_frame (init (failing_stub 2)) 0x03 1 (replicate 8 0) 2)) = 2"
proof -
  have h: "fails_then_accepts 2 (bus (init (failing_stub 2))) (make_msg (init (failing_stub 2)) 0x03 1 (replicate 8 0))"
    by (simp add: fails_then_accepts_def fails_next_def init_def failing_stub_def list_all_iff)
  show ?thesis
    using h send_can_frame_retry_count[OF h, of 3, THEN conjunct1]
      send_can_frame_retry_count[OF h, of 2, THEN conjunct2, THEN conjunct1]
    by simp
qed

text \<open>
  C8. Against a bus whose every transmission raises an \<open>Exception\<close>, \<open>send_can_frame\<close>
  returns \<open>False\<close>, as a value and not as an exception, after exactly \<open>retry\<close> calls of
  \<open>bus.send\<close>.
\<close>

theorem send_can_frame_always_failing:
  assumes "\<forall>k. \<exists>e. behaviour (bus st) k (make_msg st cmd_id motor_id dat) = Some e \<and> is_Exception e"
  shows "fst (send_can_frame st cmd_id motor_id dat retry) = Inr False
       \<and> transmit_calls st (snd (send_can_frame st cmd_id motor_id dat retry)) = nat retry"
proof -
  let ?msg = "make_msg st cmd_id motor_id dat"
  have "fails_next (nat retry) (bus st) ?msg"
    unfolding fails_next_def list_all_iff
  proof
    fix i
    from assms obtain e where "behaviour (bus st) (length (attempts (bus st)) + i) ?msg = Some e" "is_Exception e"
      by blast
    then show "case behaviour (bus st) (length (attempts (bus st)) + i) ?msg of
                 None \<Rightarrow> False | Some e \<Rightarrow> is_Exception e" by simp
  qed
  from send_loop_exhausts[OF this, of retry 0]
  show ?thesis by (simp add: send_can_frame_def transmit_calls_def)
qed

theorem send_can_frame_always_failing_witness:
  "(\<forall>k. \<exists>e. behaviour (bus (init always_failing_bus)) k (make_msg (init always_failing_bus) 0x03 1 (replicate 8 0)) = Some e
           \<and> is_Exception e)
   \<and> fst (send_can_frame (init always_failing_bus) 0x03 1 (replicate 8 0) 3) = Inr False
   \<and> transmit_calls (init always_failing_bus) (snd (send_can_frame (init always_failing_bus) 0x03 1 (replicate 8 0) 3)) = 3"
proof -
  have h: "\<forall>k. \<exists>e. behaviour (bus (init always_failing_bus)) k (make_msg (init always_failing_bus) 0x03 1 (replicate 8 0)) = Some e
           \<and> is_Exception e"
    by (simp add: init_def always_failing_bus_def)
  show ?thesis
    using h send_can_frame_always_failing[OF h, of 3] by simp
qed

text \<open>
  C2. When the command id fits 8 bits, the controller address 16 bits and the motor
  address 8 bits, the arbitration id of the message that \<open>send_can_frame\<close> builds decodes
  back to the three of them.
\<close>

theorem arbitration_id_round_trip:
  assumes "0 \<le> cmd_id" "cmd_id < 2 ^ 8" "0 \<le> master_id st" "master_id st < 2 ^ 16"
    and "0 \<le> motor_id" "motor_id < 2 ^ 8"
  shows "decode_can_id (arbitration_id (make_msg st cmd_id motor_id dat)) = (cmd_id, master_id st, motor_id)"
  using can_id_decode[OF assms] by (simp add: make_msg_def)

theorem arbitration_id_round_trip_witness:
  "(0::int) \<le> 0x12 \<and> (0x12::int) < 2 ^ 8
   \<and> 0 \<le> master_id (init accepting_bus) \<and> master_id (init accepting_bus) < 2 ^ 16
   \<and> (0::int) \<le> 1 \<and> (1::int) < 2 ^ 8
   \<and> decode_can_id (arbitration_id (make_msg (init accepting_bus) 0x12 1 [])) = (0x12, 0xFD, 1)"
  using arbitration_id_round_trip[of "0x12" "init accepting_bus" 1 "[]"]
  by (simp add: init_def)

text \<open>
  C3. With controller address \<open>0x00FD\<close> and motor address 1, every frame that
  \<open>set_target_position\<close> hands to the bus (one per attempt, at least one and at most three)
  has the arbitration id \<open>(0x12 << 24) | (0x00FD << 8) | 0x01 = 0x1200FD01\<close> and the 8-byte
  payload \<open>[0x16, 0x70, 0x00, 0x00]\<close> followed by the four little-endian bytes of the
  single-precision conversion of \<open>radians\<close>, whenever \<open>struct.pack\<close> returns those bytes.
\<close>

theorem set_target_position_frame:
  assumes "master_id st = 0x00FD" and "pack_f radians = Inr bs"
  shows "(\<exists>k. 1 \<le> k \<and> k \<le> 3 \<and> new_frames st (snd (set_target_position st 1 radians))
            = replicate k \<lparr>arbitration_id = 0x1200FD01, data = [0x16, 0x70, 0x00, 0x00] @ bs,
                            is_extended_id = True\<rparr>)
       \<and> bs = le_bytes (double_to_single radians)
       \<and> length ([0x16, 0x70, 0x00, 0x00] @ bs) = 8
       \<and> can_id 0x00FD 0x12 0x01 = 0x1200FD01"
proof -
  have id: "can_id 0x00FD 0x12 0x01 = 0x1200FD01" by (simp add: can_id_def)
  have bs: "bs = le_bytes (double_to_single radians)"
    using assms(2) by (simp add: pack_f_def Let_def split: if_splits)
  have "\<exists>k. 1 \<le> k \<and> k \<le> 3 \<and> new_frames st (snd (set_target_position st 1 radians))
            = replicate k (make_msg st 0x12 1 ([0x16, 0x70, 0x00, 0x00] @ bs))"
    by (rule float_write_new_frames) (rule set_target_position_bus[OF assms(2)])
  then show ?thesis
    unfolding make_msg_def assms(1) id using bs by (simp add: length_le_bytes)
qed

theorem set_target_position_frame_witness:
  "master_id (init accepting_bus) = 0x00FD
   \<and> pack_f 0x3FD0C152382D7365 = Inr [0x92, 0x0A, 0x86, 0x3E]
   \<and> (\<exists>k. 1 \<le> k \<and> k \<le> 3 \<and>
         new_frames (init accepting_bus) (snd (set_target_position (init accepting_bus) 1 0x3FD0C152382D7365))
            = replicate k \<lparr>arbitration_id = 0x1200FD01,
                            data = [0x16, 0x70, 0x00, 0x00] @ [0x92, 0x0A, 0x86, 0x3E],
                            is_extended_id = True\<rparr>)"
proof -
  have m: "master_id (init accepting_bus) = 0x00FD" by (simp add: init_def)
  show ?thesis
    by (intro conjI m pack_radians_15 set_target_position_frame[OF m pack_radians_15, THEN conjunct1])
qed



text \<open>
  C5, as stated, fails: a Python float is a double, and \<open>set_limit_speed\<close> with \<open>0.1\<close>
  sends the bytes of the nearest single, which decode to another double.
\<close>

theorem float_payload_round_trip_counterexample:
  "unpack_f (drop 4 (data (hd (new_frames (init accepting_bus)
       (snd (set_limit_speed (init accepting_bus) 1 float_tenth)))))) \<noteq> Some float_tenth"
  unfolding new_frames_def set_limit_speed_bus[OF pack_float_tenth] accepting_send
  by (simp add: init_def accepting_bus_def transmitted_def sleep_ms_def make_msg_def
      unpack_float_tenth float_tenth_def)

text \<open>
  C5, amended. For every float \<open>v\<close> that is exactly a single-precision value (the widening
  of a single \<open>y\<close> that is not a NaN), \<open>set_limit_speed\<close>, \<open>set_limit_torque\<close> and
  \<open>set_target_position\<close> send the little-endian bytes of \<open>y\<close> in payload bytes 4 to 7, and
  decoding those bytes yields \<open>v\<close> exactly.
\<close>

theorem float_payload_round_trip_single:
  assumes "\<not> f32_is_nan y" and "v = single_to_double y"
  shows "(\<exists>k. 1 \<le> k \<and> k \<le> 3 \<and> new_frames st (snd (set_limit_speed st motor_id v))
            = replicate k \<lparr>arbitration_id = can_id (master_id st) 0x12 motor_id,
                            data = [0x17, 0x70, 0x00, 0x00] @ le_bytes y, is_extended_id = True\<rparr>)
       \<and> (\<exists>k. 1 \<le> k \<and> k \<le> 3 \<and> new_frames st (snd (set_limit_torque st motor_id v))
            = replicate k \<lparr>arbitration_id = can_id (master_id st) 0x12 motor_id,
                            data = [0x18, 0x70, 0x00, 0x00] @ le_bytes y, is_extended_id = True\<rparr>)
       \<and> (\<exists>k. 1 \<le> k \<and> k \<le> 3 \<and> new_frames st (snd (set_target_position st motor_id v))
            = replicate k \<lparr>arbitration_id = can_id (master_id st) 0x12 motor_id,
                            data = [0x16, 0x70, 0x00, 0x00] @ le_bytes y, is_extended_id = True\<rparr>)
       \<and> unpack_f (drop 4 ([0x17, 0x70, 0x00, 0x00] @ le_bytes y)) = Some v
       \<and> unpack_f (drop 4 ([0x18, 0x70, 0x00, 0x00] @ le_bytes y)) = Some v
       \<and> unpack_f (drop 4 ([0x16, 0x70, 0x00, 0x00] @ le_bytes y)) = Some v"
proof -
  have p: "pack_f v = Inr (le_bytes y)" unfolding assms(2) by (rule pack_f_widened[OF assms(1)])
  have u: "unpack_f (le_bytes y) = Some v" unfolding assms(2) by (rule unpack_f_le_bytes)
  show ?thesis
    using float_write_new_frames[OF set_limit_speed_bus[OF p], of st motor_id]
      float_write_new_frames[OF set_limit_torque_bus[OF p], of st motor_id]
      float_write_new_frames[OF set_target_position_bus[OF p], of st motor_id]
      u
    unfolding make_msg_def by simp
qed

theorem float_payload_round_trip_single_witness:
  "\<not> f32_is_nan 0x41400000 \<and> float_12 = single_to_double 0x41400000
   \<and> (\<exists>k. 1 \<le> k \<and> k \<le> 3 \<and>
        new_frames (init accepting_bus) (snd (set_limit_torque (init accepting_bus) 1 float_12))
            = replicate k \<lparr>arbitration_id = can_id (master_id (init accepting_bus)) 0x12 1,
                            data = [0x18, 0x70, 0x00, 0x00] @ le_bytes 0x41400000, is_extended_id = True\<rparr>)
   \<and> unpack_f (drop 4 ([0x18, 0x70, 0x00, 0x00] @ le_bytes 0x41400000)) = Some float_12"
proof -
  have a: "\<not> f32_is_nan 0x41400000" by (simp add: float_eval)
  have b: "float_12 = single_to_double 0x41400000" by (simp add: float_eval)
  from float_payload_round_trip_single[OF a b, of "init accepting_bus" 1]
  show ?thesis using a b by blast
qed




text \<open>
  C9. \<open>set_target_position\<close> stores the radians in \<open>last_positions\<close> when its send returns
  \<open>True\<close> and leaves the cache as it was when the send returns \<open>False\<close>; \<open>reset_position\<close>
  stores \<open>0.0\<close> whatever its send returns.
\<close>

theorem position_cache_asymmetry:
  "(pack_f radians = Inr bs
      \<and> fst (send_can_frame st 0x12 motor_id ([0x16, 0x70, 0x00, 0x00] @ bs) default_retry) = Inr True
      \<longrightarrow> last_positions (snd (set_target_position st motor_id radians))
            = (last_positions st)(motor_id \<mapsto> radians))
 \<and> (pack_f radians = Inr bs
      \<and> fst (send_can_frame st 0x12 motor_id ([0x16, 0x70, 0x00, 0x00] @ bs) default_retry) = Inr False
      \<longrightarrow> last_positions (snd (set_target_position st motor_id radians)) = last_positions st)
 \<and> (fst (send_can_frame st 0x06 motor_id ([0x01] @ replicate 7 0) default_retry) = Inr b
      \<longrightarrow> last_positions (snd (reset_position st motor_id))
            = (last_positions st)(motor_id \<mapsto> float_zero))"
  by (auto simp: set_target_position_cache reset_position_cache)

theorem position_cache_asymmetry_witness:
  "pack_f float_2 = Inr [0x00, 0x00, 0x00, 0x40]
   \<and> fst (send_can_frame (init accepting_bus) 0x12 1 ([0x16, 0x70, 0x00, 0x00] @ [0x00, 0x00, 0x00, 0x40])
            default_retry) = Inr True
   \<and> last_positions (snd (set_target_position (init accepting_bus) 1 float_2))
        = (last_positions (init accepting_bus))(1 \<mapsto> float_2)
   \<and> fst (send_can_frame (init always_failing_bus) 0x12 1 ([0x16, 0x70, 0x00, 0x00] @ [0x00, 0x00, 0x00, 0x40])
            default_retry) = Inr False
   \<and> last_positions (snd (set_target_position (init always_failing_bus) 1 float_2))
        = last_positions (init always_failing_bus)
   \<and> fst (send_can_frame (init always_failing_bus) 0x06 1 ([0x01] @ replicate 7 0) default_retry) = Inr False
   \<and> last_positions (snd (reset_position (init always_failing_bus) 1))
        = (last_positions (init always_failing_bus))(1 \<mapsto> float_zero)"
proof -
  have a: "fst (send_can_frame (init accepting_bus) 0x12 1 ([0x16, 0x70, 0x00, 0x00] @ [0x00, 0x00, 0x00, 0x40])
            default_retry) = Inr True"
    by (simp add: accepting_send)
  have f: "fst (send_can_frame (init always_failing_bus) 0x12 1 ([0x16, 0x70, 0x00, 0x00] @ [0x00, 0x00, 0x00, 0x40])
            default_retry) = Inr False"
    by (rule always_failing_send)
  have r: "fst (send_can_frame (init always_failing_bus) 0x06 1 ([0x01] @ replicate 7 0) default_retry) = Inr False"
    by (rule always_failing_send)
  from position_cache_asymmetry[of float_2 "[0x00, 0x00, 0x00, 0x40]" "init accepting_bus" 1 False]
    position_cache_asymmetry[of float_2 "[0x00, 0x00, 0x00, 0x40]" "init always_failing_bus" 1 False]
  show ?thesis using pack_float_2 a f r by blast
qed

text \<open>
  C10. Whatever boolean \<open>send_can_frame\<close> returns, \<open>enable_motor\<close>, \<open>disable_motor\<close>,
  \<open>stop_motor\<close>, \<open>reset_position\<close>, \<open>set_position_control_mode\<close>, \<open>set_limit_speed\<close> and
  \<open>set_limit_torque\<close> return \<open>None\<close>, and \<open>move_to_degrees\<close> returns \<open>None\<close> whenever it
  returns; only \<open>set_target_position\<close> returns the boolean of its send.
\<close>

theorem send_result_returned_only_by_set_target_position:
  "(fst (send_can_frame st 0x03 motor_id (replicate 8 0) default_retry) = Inr b
      \<longrightarrow> fst (enable_motor st motor_id) = Inr PyNone)
 \<and> (fst (send_can_frame st 0x04 motor_id (replicate 8 0) default_retry) = Inr b
      \<longrightarrow> fst (disable_motor st motor_id) = Inr PyNone)
 \<and> (fst (send_can_frame st 0x00 motor_id (replicate 8 0) default_retry) = Inr b
      \<longrightarrow> fst (stop_motor st motor_id) = Inr PyNone)
 \<and> (fst (send_can_frame st 0x06 motor_id ([0x01] @ replicate 7 0) default_retry) = Inr b
      \<longrightarrow> fst (reset_position st motor_id) = Inr PyNone)
 \<and> (fst (send_can_frame st 0x12 motor_id [0x05, 0x70, 0x00, 0x00, 0x01, 0x00, 0x00, 0x00] default_retry) = Inr b
      \<longrightarrow> fst (set_position_control_mode st motor_id) = Inr PyNone)
 \<and> (pack_f x = Inr bs
      \<and> fst (send_can_frame st 0x12 motor_id ([0x17, 0x70, 0x00, 0x00] @ bs) default_retry) = Inr b
      \<longrightarrow> fst (set_limit_speed st motor_id x) = Inr PyNone)
 \<and> (pack_f x = Inr bs
      \<and> fst (send_can_frame st 0x12 motor_id ([0x18, 0x70, 0x00, 0x00] @ bs) default_retry) = Inr b
      \<longrightarrow> fst (set_limit_torque st motor_id x) = Inr PyNone)
 \<and> (pack_f x = Inr bs
      \<and> fst (send_can_frame st 0x12 motor_id ([0x16, 0x70, 0x00, 0x00] @ bs) default_retry) = Inr b
      \<longrightarrow> fst (set_target_position st motor_id x) = Inr (PyBool b))
 \<and> (fst (move_to_degrees st motor_id degrees speed_rad_s torque_nm) = Inr v \<longrightarrow> v = PyNone)"
  by (auto simp: fst_enable_motor fst_disable_motor fst_stop_motor fst_reset_position
      fst_set_position_control_mode set_limit_speed_result set_limit_torque_result
      set_target_position_result move_to_degrees_stages(1))

theorem send_result_returned_only_by_set_target_position_witness:
  "fst (send_can_frame (init always_failing_bus) 0x03 1 (replicate 8 0) default_retry) = Inr False
   \<and> fst (enable_motor (init always_failing_bus) 1) = Inr PyNone
   \<and> fst (send_can_frame (init always_failing_bus) 0x04 1 (replicate 8 0) default_retry) = Inr False
   \<and> fst (disable_motor (init always_failing_bus) 1) = Inr PyNone
   \<and> fst (send_can_frame (init always_failing_bus) 0x00 1 (replicate 8 0) default_retry) = Inr False
   \<and> fst (stop_motor (init always_failing_bus) 1) = Inr PyNone
   \<and> fst (send_can_frame (init always_failing_bus) 0x06 1 ([0x01] @ replicate 7 0) default_retry) = Inr False
   \<and> fst (reset_position (init always_failing_bus) 1) = Inr PyNone
   \<and> fst (send_can_frame (init always_failing_bus) 0x12 1 [0x05, 0x70, 0x00, 0x00, 0x01, 0x00, 0x00, 0x00]
            default_retry) = Inr False
   \<and> fst (set_position_control_mode (init always_failing_bus) 1) = Inr PyNone
   \<and> pack_f float_2 = Inr [0x00, 0x00, 0x00, 0x40]
   \<and> fst (send_can_frame (init always_failing_bus) 0x12 1 ([0x17, 0x70, 0x00, 0x00] @ [0x00, 0x00, 0x00, 0x40])
            default_retry) = Inr False
   \<and> fst (set_limit_speed (init always_failing_bus) 1 float_2) = Inr PyNone
   \<and> fst (send_can_frame (init always_failing_bus) 0x12 1 ([0x18, 0x70, 0x00, 0x00] @ [0x00, 0x00, 0x00, 0x40])
            default_retry) = Inr False
   \<and> fst (set_limit_torque (init always_failing_bus) 1 float_2) = Inr PyNone
   \<and> fst (send_can_frame (init always_failing_bus) 0x12 1 ([0x16, 0x70, 0x00, 0x00] @ [0x00, 0x00, 0x00, 0x40])
            default_retry) = Inr False
   \<and> fst (set_target_position (init always_failing_bus) 1 float_2) = Inr (PyBool False)
   \<and> fst (move_to_degrees (init always_failing_bus) 1 float_15 float_2 float_12) = Inr PyNone"
proof -
  have pr: "pack_f (math_radians float_15) = Inr [0x92, 0x0A, 0x86, 0x3E]"
    unfolding radians_float_15 by (rule pack_radians_15)
  have mv: "fst (move_to_degrees (init always_failing_bus) 1 float_15 float_2 float_12) = Inr PyNone"
    by (rule move_to_degrees_returns[OF never_escapes_stubs(2) pack_float_12 pack_float_2 pr])
  from send_result_returned_only_by_set_target_position
    [of "init always_failing_bus" 1 False float_2 "[0x00, 0x00, 0x00, 0x40]" float_15 float_2 float_12 PyNone]
  show ?thesis using always_failing_send pack_float_2 mv by blast
qed

end
